theory Spec2Isabelle
  imports Main
begin

section \<open>Strings and paths\<close>

text \<open>
  The uploader (uploader.py) builds S3 object keys from three strings and hands each file
  to the storage client. Python strings are modelled as \<open>string\<close>; the pieces of the
  standard library the program calls are modelled by their documented behaviour.
\<close>

text \<open>\<^verbatim>\<open>s.strip(c)\<close> for a single character: every leading and trailing \<open>c\<close> is removed.\<close>

definition str_strip :: "char \<Rightarrow> string \<Rightarrow> string" where
  "str_strip c s = rev (dropWhile (\<lambda>x. x = c) (rev (dropWhile (\<lambda>x. x = c) s)))"

text \<open>\<^verbatim>\<open>sep.join(xs)\<close>.\<close>

fun str_join :: "string \<Rightarrow> string list \<Rightarrow> string" where
  "str_join s [] = []"
| "str_join s [x] = x"
| "str_join s (x # y # ys) = x @ s @ str_join s (y # ys)"

text \<open>\<^verbatim>\<open>s.split(...)\<close> at every character that satisfies \<open>is_sep\<close>; empty pieces are kept.\<close>

fun str_split :: "(char \<Rightarrow> bool) \<Rightarrow> string \<Rightarrow> string list" where
  "str_split is_sep [] = [[]]"
| "str_split is_sep (c # cs) =
     (if is_sep c then [] # str_split is_sep cs
      else (case str_split is_sep cs of
              [] \<Rightarrow> [[c]]
            | x # xs \<Rightarrow> (c # x) # xs))"

text \<open>
  A \<^verbatim>\<open>pathlib.Path\<close>: its anchor (empty for a relative path, the root for an absolute
  one) and its components. The components are kept as a list, so only the rendering of
  a path depends on the platform's separator \<^verbatim>\<open>os.sep\<close>; Windows drive letters are not
  modelled.
\<close>

datatype fs_path = Path (anchor: string) (parts: "string list")

definition is_separator :: "char \<Rightarrow> char \<Rightarrow> bool" where
  "is_separator sp c = (c = sp \<or> c = CHR ''/'')"

text \<open>
  \<^verbatim>\<open>Path(value)\<close>: a leading separator makes the path absolute (exactly two leading
  separators are kept as the root, as POSIX allows); empty components and \<^verbatim>\<open>.\<close> are
  dropped, \<^verbatim>\<open>..\<close> is kept.
\<close>

definition parse_anchor :: "char \<Rightarrow> string \<Rightarrow> string" where
  "parse_anchor sp s =
     (let n = length (takeWhile (is_separator sp) s)
      in if n = 0 then [] else if n = 2 then [sp, sp] else [sp])"

definition parse_path :: "char \<Rightarrow> string \<Rightarrow> fs_path" where
  "parse_path sp s =
     Path (parse_anchor sp s)
          (filter (\<lambda>p. p \<noteq> [] \<and> p \<noteq> ''.'') (str_split (is_separator sp) s))"

text \<open>\<^verbatim>\<open>a.joinpath(b)\<close>: an absolute \<open>b\<close> replaces \<open>a\<close>, a relative one is appended.\<close>

definition joinpath :: "fs_path \<Rightarrow> fs_path \<Rightarrow> fs_path" where
  "joinpath a b = (if anchor b \<noteq> [] then b else Path (anchor a) (parts a @ parts b))"

text \<open>\<^verbatim>\<open>str(p)\<close>: the components joined by the platform's separator.\<close>

definition str_path :: "char \<Rightarrow> fs_path \<Rightarrow> string" where
  "str_path sp p =
     (if anchor p = [] \<and> parts p = [] then ''.''
      else anchor p @ str_join [sp] (parts p))"

text \<open>\<^verbatim>\<open>p.as_posix()\<close>: the same path written with forward slashes.\<close>

definition as_posix :: "char \<Rightarrow> fs_path \<Rightarrow> string" where
  "as_posix sp p =
     (if anchor p = [] \<and> parts p = [] then ''.''
      else map (\<lambda>c. if c = sp then CHR ''/'' else c) (anchor p) @ str_join ''/'' (parts p))"

text \<open>
  \<^verbatim>\<open>os.path.basename(s)\<close>: what follows the last separator of the string (all of it
  when there is none).
\<close>

definition basename :: "char \<Rightarrow> string \<Rightarrow> string" where
  "basename sp s = rev (takeWhile (\<lambda>c. \<not> is_separator sp c) (rev s))"

section \<open>Errors\<close>

datatype error =
    ArgumentTypeError string
  | UsageError string
  | Exception string
  | ClientError string
  | ValueError string
  | OSError int

text \<open>
  \<^verbatim>\<open>p.relative_to(other)\<close> raises \<^verbatim>\<open>ValueError\<close> unless \<open>other\<close> is an ancestor
  of \<open>p\<close> (or \<open>p\<close> itself).
\<close>

definition relative_to :: "char \<Rightarrow> fs_path \<Rightarrow> fs_path \<Rightarrow> error + fs_path" where
  "relative_to sp p other =
     (if anchor p = anchor other \<and> take (length (parts other)) (parts p) = parts other
      then Inr (Path [] (drop (length (parts other)) (parts p)))
      else Inl (ValueError (str_path sp p @ '' is not in the subpath of '' @ str_path sp other)))"

section \<open>The configuration and the outside world\<close>

text \<open>The namespace \<^verbatim>\<open>parse_args\<close> returns; \<open>s3_root\<close> defaults to \<^verbatim>\<open>None\<close>.\<close>

record arguments =
  s3_access_key :: string
  s3_secret :: string
  s3_endpoint :: string
  s3_region :: string
  s3_bucket :: string
  s3_path :: string
  path :: fs_path
  s3_root :: "string option"
  s3_visibility :: string

text \<open>The client \<^verbatim>\<open>get_s3_client\<close> builds, and one \<^verbatim>\<open>client.upload_file\<close> call.\<close>

record s3_client =
  region_name :: string
  endpoint_url :: string
  aws_access_key_id :: string
  aws_secret_access_key :: string

record upload_call =
  Filename :: string
  Bucket :: string
  Key :: string
  ACL :: string
  ContentType :: string

text \<open>
  What the program cannot decide by itself: the platform, the location of the script,
  the file system, the table of \<^verbatim>\<open>mimetypes\<close> and the behaviour of the storage service.
  \<open>listing w d\<close> gives the entries below directory \<open>d\<close>, each by its components
  relative to \<open>d\<close>, in the order \<^verbatim>\<open>rglob\<close> meets them. \<open>transfer w c u\<close> gives the
  sizes of the chunks the client reports to the callback during upload \<open>u\<close>, and the
  error the upload ends with, if any. \<open>stat_errno w p\<close> is the error number
  \<^verbatim>\<open>os.stat\<close> fails with on \<open>p\<close>, and \<open>None\<close> when it succeeds.
\<close>

record world =
  os_sep :: char
  BASE_DIR :: fs_path
  stat_errno :: "fs_path \<Rightarrow> int option"
  is_dir :: "fs_path \<Rightarrow> bool"
  is_file :: "fs_path \<Rightarrow> bool"
  listing :: "fs_path \<Rightarrow> string list list"
  st_size :: "fs_path \<Rightarrow> int"
  guess_type :: "string \<Rightarrow> string option"
  transfer :: "s3_client \<Rightarrow> upload_call \<Rightarrow> int list \<times> string option"

section \<open>Argument parsing\<close>

definition ALLOWED_VISIBILITIES :: "string list" where
  "ALLOWED_VISIBILITIES = [''private'', ''public-read'']"

text \<open>
  \<^verbatim>\<open>Path.exists()\<close> of the standard library calls \<^verbatim>\<open>os.stat\<close>: it answers
  \<^verbatim>\<open>True\<close> when the call succeeds, \<^verbatim>\<open>False\<close> when it fails with one of the error
  numbers of \<^verbatim>\<open>_IGNORED_ERRNOS\<close>, and lets every other \<^verbatim>\<open>OSError\<close> through.
\<close>

definition ENOENT :: int where "ENOENT = 2"
definition EBADF :: int where "EBADF = 9"
definition EACCES :: int where "EACCES = 13"
definition ENOTDIR :: int where "ENOTDIR = 20"
definition ENAMETOOLONG :: int where "ENAMETOOLONG = 36"
definition ELOOP :: int where "ELOOP = 40"

definition IGNORED_ERRNOS :: "int list" where
  "IGNORED_ERRNOS = [ENOENT, ENOTDIR, EBADF, ELOOP]"

definition ignore_error :: "int \<Rightarrow> bool" where
  "ignore_error errno = (errno \<in> set IGNORED_ERRNOS)"

definition path_exists :: "world \<Rightarrow> fs_path \<Rightarrow> error + bool" where
  "path_exists w p =
     (case stat_errno w p of
        None \<Rightarrow> Inr True
      | Some errno \<Rightarrow> if ignore_error errno then Inr False else Inl (OSError errno))"

text \<open>
  The converter of \<^verbatim>\<open>--path\<close>. It catches nothing, so an \<^verbatim>\<open>OSError\<close> of
  \<^verbatim>\<open>exists()\<close> leaves it as it is.
\<close>

definition path_object :: "world \<Rightarrow> string \<Rightarrow> error + fs_path" where
  "path_object w value =
     (let abspath = joinpath (BASE_DIR w) (parse_path (os_sep w) value)
      in case path_exists w abspath of
           Inl e \<Rightarrow> Inl e
         | Inr found \<Rightarrow>
             if found then Inr abspath
             else Inl (ArgumentTypeError
                    (''Unable to resolve path `'' @ str_path (os_sep w) abspath
                     @ ''`. Path argument must be a valid path.'')))"

text \<open>
  The command line as \<^verbatim>\<open>argparse\<close> reads it, after it has split the words into
  occurrences of options with their values: a list of (option, value) pairs in the order
  given. Each occurrence is converted and checked when it is met, so the first offending
  occurrence ends the parse; missing required options and unknown options are reported
  after the last one. The built-in \<^verbatim>\<open>-h\<close> is not modelled.
\<close>

record namespace =
  ns_s3_access_key :: "string option"
  ns_s3_secret :: "string option"
  ns_s3_endpoint :: "string option"
  ns_s3_region :: "string option"
  ns_s3_bucket :: "string option"
  ns_s3_path :: "string option"
  ns_path :: "fs_path option"
  ns_s3_root :: "string option"
  ns_s3_visibility :: string
  ns_extras :: "string list"

definition defaults :: namespace where
  "defaults =
     \<lparr> ns_s3_access_key = None, ns_s3_secret = None, ns_s3_endpoint = None,
       ns_s3_region = None, ns_s3_bucket = None, ns_s3_path = None, ns_path = None,
       ns_s3_root = None, ns_s3_visibility = ALLOWED_VISIBILITIES ! 0, ns_extras = [] \<rparr>"

fun store_arg :: "world \<Rightarrow> string \<times> string \<Rightarrow> namespace \<Rightarrow> error + namespace" where
  "store_arg w (opt, v) ns =
     (if opt = ''--s3_access_key'' then Inr (ns\<lparr>ns_s3_access_key := Some v\<rparr>)
      else if opt = ''--s3_secret'' then Inr (ns\<lparr>ns_s3_secret := Some v\<rparr>)
      else if opt = ''--s3_endpoint'' then Inr (ns\<lparr>ns_s3_endpoint := Some v\<rparr>)
      else if opt = ''--s3_region'' then Inr (ns\<lparr>ns_s3_region := Some v\<rparr>)
      else if opt = ''--s3_bucket'' then Inr (ns\<lparr>ns_s3_bucket := Some v\<rparr>)
      else if opt = ''--s3_path'' then Inr (ns\<lparr>ns_s3_path := Some v\<rparr>)
      else if opt = ''--path'' then
        (case path_object w v of
           Inl (ArgumentTypeError msg) \<Rightarrow> Inl (UsageError (''argument --path: '' @ msg))
         | Inl e \<Rightarrow> Inl e
         | Inr p \<Rightarrow> Inr (ns\<lparr>ns_path := Some p\<rparr>))
      else if opt = ''--s3_root'' then Inr (ns\<lparr>ns_s3_root := Some v\<rparr>)
      else if opt = ''--s3_visibility'' then
        (if v \<in> set ALLOWED_VISIBILITIES then Inr (ns\<lparr>ns_s3_visibility := v\<rparr>)
         else Inl (UsageError (''argument --s3_visibility: invalid choice: '' @ v
                 @ '' (choose from '' @ str_join '', '' ALLOWED_VISIBILITIES @ '')'')))
      else Inr (ns\<lparr>ns_extras := ns_extras ns @ [opt, v]\<rparr>))"

fun store_args :: "world \<Rightarrow> (string \<times> string) list \<Rightarrow> namespace \<Rightarrow> error + namespace" where
  "store_args w [] ns = Inr ns"
| "store_args w (a # rest) ns =
     (case store_arg w a ns of
        Inl e \<Rightarrow> Inl e
      | Inr ns' \<Rightarrow> store_args w rest ns')"

definition missing_required :: "namespace \<Rightarrow> string list" where
  "missing_required ns =
     (if ns_s3_access_key ns = None then [''--s3_access_key''] else [])
     @ (if ns_s3_secret ns = None then [''--s3_secret''] else [])
     @ (if ns_s3_endpoint ns = None then [''--s3_endpoint''] else [])
     @ (if ns_s3_region ns = None then [''--s3_region''] else [])
     @ (if ns_s3_bucket ns = None then [''--s3_bucket''] else [])
     @ (if ns_s3_path ns = None then [''--s3_path''] else [])
     @ (if ns_path ns = None then [''--path''] else [])"

definition parse_args :: "world \<Rightarrow> (string \<times> string) list \<Rightarrow> error + arguments" where
  "parse_args w argv =
     (case store_args w argv defaults of
        Inl e \<Rightarrow> Inl e
      | Inr ns \<Rightarrow>
          if missing_required ns \<noteq> [] then
            Inl (UsageError (''the following arguments are required: ''
                   @ str_join '', '' (missing_required ns)))
          else if ns_extras ns \<noteq> [] then
            Inl (UsageError (''unrecognized arguments: '' @ str_join '' '' (ns_extras ns)))
          else
            Inr \<lparr> s3_access_key = the (ns_s3_access_key ns),
                  s3_secret = the (ns_s3_secret ns),
                  s3_endpoint = the (ns_s3_endpoint ns),
                  s3_region = the (ns_s3_region ns),
                  s3_bucket = the (ns_s3_bucket ns),
                  s3_path = the (ns_s3_path ns),
                  path = the (ns_path ns),
                  s3_root = ns_s3_root ns,
                  s3_visibility = ns_s3_visibility ns \<rparr>)"

section \<open>The storage client and the progress bar\<close>

definition get_s3_client :: "arguments \<Rightarrow> s3_client" where
  "get_s3_client args =
     \<lparr> region_name = s3_region args, endpoint_url = s3_endpoint args,
       aws_access_key_id = s3_access_key args, aws_secret_access_key = s3_secret args \<rparr>"

text \<open>
  What reaches the storage service, in order: an upload is started, and it either
  completes or fails before the call returns.
\<close>

datatype event = Started upload_call | Completed upload_call | Failed upload_call

text \<open>
  \<^verbatim>\<open>client.upload_file(..., Callback=cb)\<close>: the callback is called once per chunk with
  the chunk's size; \<open>st\<close> is the state the callback closes over. The call raises when
  the transfer ends with an error.
\<close>

definition client_upload_file ::
  "world \<Rightarrow> s3_client \<Rightarrow> upload_call \<Rightarrow> (int \<Rightarrow> 'st \<Rightarrow> 'st) \<Rightarrow> 'st
     \<Rightarrow> event list \<times> 'st \<times> error option" where
  "client_upload_file w client call callback st =
     (case transfer w client call of
        (chunks, None) \<Rightarrow> ([Started call, Completed call], fold callback chunks st, None)
      | (chunks, Some msg) \<Rightarrow>
          ([Started call, Failed call], fold callback chunks st, Some (ClientError msg)))"

text \<open>
  A \<^verbatim>\<open>tqdm\<close> bar: its total and its counter \<open>n\<close>, which is what the bar shows.
  \<^verbatim>\<open>bar.update(k)\<close> adds \<open>k\<close> to the counter.
\<close>

record tqdm =
  total :: int
  n :: int

definition tqdm_new :: "int \<Rightarrow> tqdm" where
  "tqdm_new t = \<lparr> total = t, n = 0 \<rparr>"

definition update :: "int \<Rightarrow> tqdm \<Rightarrow> tqdm" where
  "update k bar = bar\<lparr>n := n bar + k\<rparr>"

section \<open>Destination keys\<close>

text \<open>
  Both uploads start from the same prefix: the destination path without its leading and
  trailing slashes, behind the root prefix and a slash when \<^verbatim>\<open>if prefix:\<close> holds, that
  is when the root prefix is neither \<^verbatim>\<open>None\<close> nor empty.
\<close>

definition truthy :: "string option \<Rightarrow> bool" where
  "truthy prefix = (case prefix of None \<Rightarrow> False | Some s \<Rightarrow> s \<noteq> [])"

text \<open>How an f-string renders the root prefix.\<close>

definition format_prefix :: "string option \<Rightarrow> string" where
  "format_prefix prefix = (case prefix of None \<Rightarrow> ''None'' | Some s \<Rightarrow> s)"

definition store_at_prefix :: "arguments \<Rightarrow> string" where
  "store_at_prefix args =
     (let prefix = s3_root args;
          store_at = str_strip CHR ''/'' (s3_path args)
      in if truthy prefix then format_prefix prefix @ ''/'' @ store_at else store_at)"

definition file_key :: "world \<Rightarrow> arguments \<Rightarrow> string" where
  "file_key w args =
     store_at_prefix args @ ''/'' @ basename (os_sep w) (str_path (os_sep w) (path args))"

definition dir_key :: "world \<Rightarrow> arguments \<Rightarrow> fs_path \<Rightarrow> error + string" where
  "dir_key w args filepath =
     (case relative_to (os_sep w) filepath (path args) of
        Inl e \<Rightarrow> Inl e
      | Inr rel \<Rightarrow> Inr (store_at_prefix args @ ''/'' @ as_posix (os_sep w) rel))"

section \<open>Single-file upload\<close>

text \<open>
  The callback \<^verbatim>\<open>bytes_count\<close> closes over \<^verbatim>\<open>bytes_transferred\<close> and the bar: it
  adds the chunk's size to the running total, then calls \<^verbatim>\<open>update\<close> with that total.
\<close>

definition bytes_count :: "int \<Rightarrow> int \<times> tqdm \<Rightarrow> int \<times> tqdm" where
  "bytes_count size' st =
     (let bytes_transferred = fst st + size'
      in (bytes_transferred, update bytes_transferred (snd st)))"

text \<open>
  \<^verbatim>\<open>upload_file\<close> returns what reached the storage service, the bar as the run left
  it, and the error the run ended with, if any.
\<close>

definition upload_file :: "world \<Rightarrow> arguments \<Rightarrow> event list \<times> tqdm \<times> error option" where
  "upload_file w input_arguments =
     (let client = get_s3_client input_arguments;
          bytes_total = st_size w (path input_arguments);
          progress_bar = tqdm_new bytes_total;
          store_at = file_key w input_arguments;
          filename = str_path (os_sep w) (path input_arguments)
      in case guess_type w filename of
           None \<Rightarrow>
             ([], progress_bar,
              Some (Exception (''Failed to guess mimetype of `'' @ filename @ ''`'')))
         | Some mimetype \<Rightarrow>
             (case client_upload_file w client
                     \<lparr> Filename = filename, Bucket = s3_bucket input_arguments,
                       Key = store_at, ACL = s3_visibility input_arguments,
                       ContentType = mimetype \<rparr>
                     bytes_count (0, progress_bar) of
                (evs, (_, bar), err) \<Rightarrow> (evs, bar, err)))"

section \<open>Directory upload\<close>

definition rglob :: "world \<Rightarrow> fs_path \<Rightarrow> fs_path list" where
  "rglob w d = map (\<lambda>rel. Path (anchor d) (parts d @ rel)) (listing w d)"

definition files_of :: "world \<Rightarrow> arguments \<Rightarrow> fs_path list" where
  "files_of w args = filter (is_file w) (rglob w (path args))"

text \<open>The call the loop makes for one file once its key and content type are known.\<close>

definition dir_call :: "world \<Rightarrow> arguments \<Rightarrow> fs_path \<Rightarrow> string \<Rightarrow> string \<Rightarrow> upload_call" where
  "dir_call w args filepath key mimetype =
     \<lparr> Filename = str_path (os_sep w) filepath, Bucket = s3_bucket args, Key = key,
       ACL = s3_visibility args, ContentType = mimetype \<rparr>"

text \<open>The loop over the files: the first exception ends it.\<close>

fun upload_each ::
  "world \<Rightarrow> arguments \<Rightarrow> s3_client \<Rightarrow> fs_path list \<Rightarrow> event list \<times> error option" where
  "upload_each w args client [] = ([], None)"
| "upload_each w args client (filepath # rest) =
     (case dir_key w args filepath of
        Inl e \<Rightarrow> ([], Some e)
      | Inr key \<Rightarrow>
          (case guess_type w (str_path (os_sep w) filepath) of
             None \<Rightarrow>
               ([], Some (Exception (''Failed to guess mimetype of `''
                            @ str_path (os_sep w) filepath @ ''`'')))
           | Some mimetype \<Rightarrow>
               (case client_upload_file w client (dir_call w args filepath key mimetype)
                       (\<lambda>_ u. u) () of
                  (evs, _, Some e) \<Rightarrow> (evs, Some e)
                | (evs, _, None) \<Rightarrow>
                    (case upload_each w args client rest of
                       (evs', r) \<Rightarrow> (evs @ evs', r)))))"

definition upload_dir :: "world \<Rightarrow> arguments \<Rightarrow> event list \<times> error option" where
  "upload_dir w input_arguments =
     upload_each w input_arguments (get_s3_client input_arguments)
       (files_of w input_arguments)"

section \<open>Entry point\<close>

text \<open>
  \<^verbatim>\<open>main\<close> returns what reached the storage service and either the error that ended
  the process or the line it printed.
\<close>

definition main :: "world \<Rightarrow> (string \<times> string) list \<Rightarrow> event list \<times> (error + string)" where
  "main w argv =
     (case parse_args w argv of
        Inl e \<Rightarrow> ([], Inl e)
      | Inr args \<Rightarrow>
          if is_dir w (path args) then
            (case upload_dir w args of
               (evs, Some e) \<Rightarrow> (evs, Inl e)
             | (evs, None) \<Rightarrow> (evs, Inr ''Done.''))
          else
            (case upload_file w args of
               (evs, _, Some e) \<Rightarrow> (evs, Inl e)
             | (evs, _, None) \<Rightarrow> (evs, Inr ''Done.'')))"

section \<open>Observing a run\<close>

text \<open>The calls that were started, and the calls that completed, in order.\<close>

definition started :: "event list \<Rightarrow> upload_call list" where
  "started evs = concat (map (\<lambda>e. case e of Started c \<Rightarrow> [c] | _ \<Rightarrow> []) evs)"

definition completed :: "event list \<Rightarrow> upload_call list" where
  "completed evs = concat (map (\<lambda>e. case e of Completed c \<Rightarrow> [c] | _ \<Rightarrow> []) evs)"

text \<open>
  The call the directory loop makes for a file, when it gets as far as making one: there
  is none for a file whose content type cannot be guessed.
\<close>

definition call_for :: "world \<Rightarrow> arguments \<Rightarrow> fs_path \<Rightarrow> upload_call option" where
  "call_for w args filepath =
     (case dir_key w args filepath of
        Inl e \<Rightarrow> None
      | Inr key \<Rightarrow>
          (case guess_type w (str_path (os_sep w) filepath) of
             None \<Rightarrow> None
           | Some mimetype \<Rightarrow> Some (dir_call w args filepath key mimetype)))"

text \<open>
  A file fails when no call can be made for it, or when the storage client ends the
  call with an error.
\<close>

definition file_fails :: "world \<Rightarrow> arguments \<Rightarrow> fs_path \<Rightarrow> bool" where
  "file_fails w args filepath =
     (case call_for w args filepath of
        None \<Rightarrow> True
      | Some c \<Rightarrow> snd (transfer w (get_s3_client args) c) \<noteq> None)"

text \<open>The entries below a directory that are regular files, by their relative components.\<close>

definition regular_files :: "world \<Rightarrow> fs_path \<Rightarrow> string list list" where
  "regular_files w d =
     filter (\<lambda>rel. is_file w (Path (anchor d) (parts d @ rel))) (listing w d)"

text \<open>A relative path written with forward slashes.\<close>

definition relative_posix :: "string list \<Rightarrow> string" where
  "relative_posix rel = (if rel = [] then ''.'' else str_join ''/'' rel)"

text \<open>A key with two slashes in a row.\<close>

fun has_double_slash :: "string \<Rightarrow> bool" where
  "has_double_slash (a # b # cs) =
     ((a = CHR ''/'' \<and> b = CHR ''/'') \<or> has_double_slash (b # cs))"
| "has_double_slash _ = False"

section \<open>An example installation\<close>

text \<open>
  The script lives in \<^verbatim>\<open>/opt/tool\<close>. Beside it are the file \<^verbatim>\<open>report.pdf\<close>, the file
  \<^verbatim>\<open>README\<close> and the directory \<^verbatim>\<open>site\<close>, which holds \<^verbatim>\<open>a/b.txt\<close> and \<^verbatim>\<open>c.png\<close>.
  Every transfer reports a chunk of one byte, then one of two bytes, and succeeds.
  For any other path \<^verbatim>\<open>os.stat\<close> fails: with \<^verbatim>\<open>ENAMETOOLONG\<close> when a component
  is longer than the 255 characters the file system allows, with \<^verbatim>\<open>ENOENT\<close> otherwise.
\<close>

definition demo_dir :: fs_path where
  "demo_dir = Path ''/'' [''opt'', ''tool'', ''site'']"

definition demo_guess :: "string \<Rightarrow> string option" where
  "demo_guess s =
     (if drop (length s - 4) s = ''.txt'' then Some ''text/plain''
      else if drop (length s - 4) s = ''.png'' then Some ''image/png''
      else if drop (length s - 4) s = ''.pdf'' then Some ''application/pdf''
      else None)"

definition demo_world :: world where
  "demo_world =
     \<lparr> os_sep = CHR ''/'',
       BASE_DIR = Path ''/'' [''opt'', ''tool''],
       stat_errno = (\<lambda>p. if p \<in> set [demo_dir,
                                         Path ''/'' [''opt'', ''tool'', ''report.pdf''],
                                         Path ''/'' [''opt'', ''tool'', ''README'']]
                          then None
                          else if list_ex (\<lambda>name. 255 < length name) (parts p)
                          then Some ENAMETOOLONG
                          else Some ENOENT),
       is_dir = (\<lambda>p. p = demo_dir \<or> p = Path ''/'' [''opt'', ''tool'', ''site'', ''a'']),
       is_file = (\<lambda>p. p \<in> set [Path ''/'' [''opt'', ''tool'', ''site'', ''a'', ''b.txt''],
                                Path ''/'' [''opt'', ''tool'', ''site'', ''c.png''],
                                Path ''/'' [''opt'', ''tool'', ''report.pdf''],
                                Path ''/'' [''opt'', ''tool'', ''README'']]),
       listing = (\<lambda>d. if d = demo_dir then [[''a''], [''a'', ''b.txt''], [''c.png'']] else []),
       st_size = (\<lambda>p. 3),
       guess_type = demo_guess,
       transfer = (\<lambda>c u. ([1, 2], None)) \<rparr>"

text \<open>The arguments of a directory upload and of a single-file upload.\<close>

definition demo_dir_args :: arguments where
  "demo_dir_args =
     \<lparr> s3_access_key = ''AK'', s3_secret = ''SK'', s3_endpoint = ''https://s3.example.com'',
       s3_region = ''eu'', s3_bucket = ''bucket'', s3_path = ''store'', path = demo_dir,
       s3_root = Some ''assets'', s3_visibility = ''private'' \<rparr>"

definition demo_file_args :: arguments where
  "demo_file_args =
     \<lparr> s3_access_key = ''AK'', s3_secret = ''SK'', s3_endpoint = ''https://s3.example.com'',
       s3_region = ''eu'', s3_bucket = ''bucket'', s3_path = ''/docs/'',
       path = Path ''/'' [''opt'', ''tool'', ''report.pdf''],
       s3_root = Some ''media'', s3_visibility = ''private'' \<rparr>"

definition demo_argv :: "(string \<times> string) list" where
  "demo_argv =
     [(''--s3_access_key'', ''AK''), (''--s3_secret'', ''SK''),
      (''--s3_endpoint'', ''https://s3.example.com''), (''--s3_region'', ''eu''),
      (''--s3_bucket'', ''bucket''), (''--s3_path'', ''store''),
      (''--path'', ''site'')]"




text \<open>
  The same installation with a storage service that refuses the object
  \<^verbatim>\<open>assets/store/c.png\<close> after one byte, and the same installation with a table of
  content types that knows \<^verbatim>\<open>.png\<close> only.
\<close>

definition demo_denied_world :: world where
  "demo_denied_world =
     demo_world\<lparr>transfer :=
       (\<lambda>c u. if Key u = ''assets/store/c.png'' then ([1], Some ''AccessDenied'')
              else ([1, 2], None))\<rparr>"

definition demo_png_world :: world where
  "demo_png_world =
     demo_world\<lparr>guess_type :=
       (\<lambda>s. if drop (length s - 4) s = ''.png'' then Some ''image/png'' else None)\<rparr>"

section \<open>The key as the specification words it\<close>

text \<open>
  Root prefix, destination path without its outer slashes and the file's part, joined by
  slashes, the root segment left out when the root prefix is unset.
\<close>

definition stated_key :: "string option \<Rightarrow> string \<Rightarrow> string \<Rightarrow> string" where
  "stated_key root dest tail =
     (case root of None \<Rightarrow> [] | Some r \<Rightarrow> r @ ''/'')
     @ str_strip CHR ''/'' dest @ ''/'' @ tail"

section \<open>Auxiliary facts about strings\<close>

lemma takeWhile_eq_replicate:
  "replicate (length (takeWhile (\<lambda>x. x = c) xs)) c = takeWhile (\<lambda>x. x = c) xs"
  by (rule replicate_length_same) (auto dest: set_takeWhileD)

lemma str_strip_decomp:
  "\<exists>m k. s = replicate m c @ str_strip c s @ replicate k c"
proof -
  define t where "t = dropWhile (\<lambda>x. x = c) s"
  define u where "u = dropWhile (\<lambda>x. x = c) (rev t)"
  define m where "m = length (takeWhile (\<lambda>x. x = c) s)"
  define k where "k = length (takeWhile (\<lambda>x. x = c) (rev t))"
  have E: "replicate m c = takeWhile (\<lambda>x. x = c) s"
    unfolding m_def by (rule takeWhile_eq_replicate)
  have D: "replicate k c = takeWhile (\<lambda>x. x = c) (rev t)"
    unfolding k_def by (rule takeWhile_eq_replicate)
  have A: "s = replicate m c @ t"
    by (simp only: E t_def takeWhile_dropWhile_id)
  have B: "rev t = replicate k c @ u"
    by (simp only: D u_def takeWhile_dropWhile_id)
  have "rev (rev t) = rev (replicate k c @ u)"
    by (rule arg_cong [OF B])
  then have C: "t = rev u @ replicate k c"
    by (simp only: rev_rev_ident rev_append rev_replicate)
  have S: "str_strip c s = rev u"
    by (simp only: str_strip_def u_def t_def)
  have "s = replicate m c @ str_strip c s @ replicate k c"
    by (simp only: S) (simp only: A C [symmetric])
  then show ?thesis by blast
qed

lemma dropWhile_hd: "dropWhile P xs \<noteq> [] \<Longrightarrow> \<not> P (hd (dropWhile P xs))"
  by (induction xs) (auto split: if_splits)

lemma dropWhile_snoc_keep: "\<not> P a \<Longrightarrow> dropWhile P (ys @ [a]) = dropWhile P ys @ [a]"
  by (induction ys) auto

lemma str_strip_last: "str_strip c s \<noteq> [] \<Longrightarrow> last (str_strip c s) \<noteq> c"
proof -
  assume ne: "str_strip c s \<noteq> []"
  define u where "u = dropWhile (\<lambda>x. x = c) (rev (dropWhile (\<lambda>x. x = c) s))"
  have S: "str_strip c s = rev u" by (simp only: str_strip_def u_def)
  from ne have u: "u \<noteq> []" by (simp add: S)
  have "\<not> (hd u = c)" using dropWhile_hd [of "\<lambda>x. x = c"] u unfolding u_def by blast
  moreover have "last (rev u) = hd u" using u by (simp add: last_rev)
  ultimately show ?thesis by (simp add: S)
qed

lemma str_strip_hd: "str_strip c s \<noteq> [] \<Longrightarrow> hd (str_strip c s) \<noteq> c"
proof -
  assume ne: "str_strip c s \<noteq> []"
  define t where "t = dropWhile (\<lambda>x. x = c) s"
  define u where "u = dropWhile (\<lambda>x. x = c) (rev t)"
  have S: "str_strip c s = rev u" by (simp only: str_strip_def u_def t_def)
  from ne have u: "u \<noteq> []" by (simp add: S)
  have t: "t \<noteq> []"
  proof
    assume e: "t = []"
    have "u = []" unfolding u_def e by simp
    with u show False by blast
  qed
  then obtain a ts where ats: "t = a # ts" by (cases t) auto
  have "\<not> (hd t = c)" using dropWhile_hd [of "\<lambda>x. x = c" s] t unfolding t_def by blast
  with ats have na: "a \<noteq> c" by simp
  have "u = dropWhile (\<lambda>x. x = c) (rev ts) @ [a]"
    unfolding u_def ats using na by (simp add: dropWhile_snoc_keep)
  then have "rev u = a # rev (dropWhile (\<lambda>x. x = c) (rev ts))" by simp
  with na show ?thesis by (simp add: S)
qed

section \<open>C7: the destination path is stripped of its outer slashes\<close>

text \<open>
  Claim C7. For every destination path, also one with leading or trailing slashes, the key
  of the single-file upload and every key of the directory upload embed the destination
  path without its leading and trailing slashes: the destination path is the stripped
  string between a run of slashes on each side, the stripped string neither starts nor
  ends with a slash, and it is what stands in the key between the root segment and the
  file's part.
\<close>

theorem dest_path_stripped:
  "(\<exists>m k. s3_path args = replicate m CHR ''/'' @ str_strip CHR ''/'' (s3_path args)
                           @ replicate k CHR ''/'')
   \<and> (str_strip CHR ''/'' (s3_path args) \<noteq> [] \<longrightarrow>
        hd (str_strip CHR ''/'' (s3_path args)) \<noteq> CHR ''/''
        \<and> last (str_strip CHR ''/'' (s3_path args)) \<noteq> CHR ''/'')
   \<and> file_key w args =
        (if truthy (s3_root args) then format_prefix (s3_root args) @ ''/'' else [])
        @ str_strip CHR ''/'' (s3_path args) @ ''/''
        @ basename (os_sep w) (str_path (os_sep w) (path args))
   \<and> (\<forall>filepath key. dir_key w args filepath = Inr key \<longrightarrow>
        (\<exists>rel. relative_to (os_sep w) filepath (path args) = Inr rel
           \<and> key = (if truthy (s3_root args) then format_prefix (s3_root args) @ ''/'' else [])
                   @ str_strip CHR ''/'' (s3_path args) @ ''/'' @ as_posix (os_sep w) rel))"
proof (intro conjI)
  show "\<exists>m k. s3_path args = replicate m CHR ''/'' @ str_strip CHR ''/'' (s3_path args)
                           @ replicate k CHR ''/''"
    by (rule str_strip_decomp)
  show "str_strip CHR ''/'' (s3_path args) \<noteq> [] \<longrightarrow>
        hd (str_strip CHR ''/'' (s3_path args)) \<noteq> CHR ''/''
        \<and> last (str_strip CHR ''/'' (s3_path args)) \<noteq> CHR ''/''"
    using str_strip_hd str_strip_last by blast
  show "file_key w args =
        (if truthy (s3_root args) then format_prefix (s3_root args) @ ''/'' else [])
        @ str_strip CHR ''/'' (s3_path args) @ ''/''
        @ basename (os_sep w) (str_path (os_sep w) (path args))"
    by (simp add: file_key_def store_at_prefix_def Let_def)
  show "\<forall>filepath key. dir_key w args filepath = Inr key \<longrightarrow>
        (\<exists>rel. relative_to (os_sep w) filepath (path args) = Inr rel
           \<and> key = (if truthy (s3_root args) then format_prefix (s3_root args) @ ''/'' else [])
                   @ str_strip CHR ''/'' (s3_path args) @ ''/'' @ as_posix (os_sep w) rel)"
    by (auto simp: dir_key_def store_at_prefix_def Let_def split: sum.splits)
qed

theorem dest_path_stripped_witness:
  "str_strip CHR ''/'' (s3_path demo_file_args) = ''docs''
   \<and> s3_path demo_file_args = ''/docs/''
   \<and> file_key demo_world demo_file_args = ''media/docs/report.pdf''
   \<and> dir_key demo_world (demo_dir_args\<lparr>s3_path := ''//store/''\<rparr>)
        (Path ''/'' [''opt'', ''tool'', ''site'', ''a'', ''b.txt''])
      = Inr ''assets/store/a/b.txt''"
  using dest_path_stripped [of demo_file_args demo_world]
        dest_path_stripped [of "demo_dir_args\<lparr>s3_path := ''//store/''\<rparr>" demo_world]
  by (simp add: demo_file_args_def demo_dir_args_def demo_world_def demo_dir_def
        str_strip_def file_key_def dir_key_def store_at_prefix_def truthy_def format_prefix_def
        basename_def str_path_def as_posix_def relative_to_def is_separator_def)

section \<open>Auxiliary facts about keys\<close>

lemmas key_defs = file_key_def dir_key_def store_at_prefix_def truthy_def format_prefix_def
  str_strip_def basename_def str_path_def as_posix_def relative_to_def is_separator_def

lemmas demo_defs = demo_world_def demo_dir_def demo_dir_args_def demo_file_args_def
  demo_guess_def

lemma has_double_slash_append_left: "has_double_slash xs \<Longrightarrow> has_double_slash (xs @ ys)"
  by (induction xs rule: has_double_slash.induct) auto

lemma has_double_slash_append_right: "has_double_slash ys \<Longrightarrow> has_double_slash (xs @ ys)"
proof (induction xs)
  case Nil
  then show ?case by simp
next
  case (Cons a xs)
  then have "has_double_slash (xs @ ys)" by simp
  then show ?case by (cases "xs @ ys") auto
qed

lemma has_double_slash_after_slash:
  "xs \<noteq> [] \<Longrightarrow> last xs = CHR ''/'' \<Longrightarrow> has_double_slash (xs @ CHR ''/'' # ys)"
proof (induction xs)
  case Nil
  then show ?case by simp
next
  case (Cons a xs)
  show ?case
  proof (cases xs)
    case Nil
    with Cons.prems show ?thesis by simp
  next
    case (Cons b bs)
    with Cons.prems Cons.IH have "has_double_slash (xs @ CHR ''/'' # ys)" by simp
    with Cons show ?thesis by simp
  qed
qed

lemma store_at_prefix_root:
  "store_at_prefix (args\<lparr>s3_root := r\<rparr>) =
     (case r of None \<Rightarrow> [] | Some p \<Rightarrow> if p = [] then [] else p @ ''/'')
     @ str_strip CHR ''/'' (s3_path args)"
  by (simp add: store_at_prefix_def truthy_def format_prefix_def Let_def split: option.splits)

lemma upload_each_cong:
  assumes "store_at_prefix a = store_at_prefix b" and "path a = path b"
    and "s3_bucket a = s3_bucket b" and "s3_visibility a = s3_visibility b"
  shows "upload_each w a c fs = upload_each w b c fs"
proof (induction fs)
  case Nil
  show ?case by simp
next
  case (Cons f fs)
  have k: "dir_key w a f = dir_key w b f"
    using assms by (simp add: dir_key_def split: sum.splits)
  have d: "\<And>key m. dir_call w a f key m = dir_call w b f key m"
    using assms by (simp add: dir_call_def)
  show ?case
    by (simp add: k d Cons.IH split: sum.splits option.splits prod.splits)
qed

section \<open>C10: an empty root prefix counts as none\<close>

text \<open>
  Claim C10. When \<^verbatim>\<open>--s3_root\<close> is passed as the empty string, the namespace holds the
  empty string, not \<^verbatim>\<open>None\<close>, and still every key is computed as when the flag is
  absent: the prefix, the key of a single file, the key of each file of a directory and
  with them the whole of both uploads are the same for the two. The root segment is in
  the key exactly when the root prefix is not empty: a root prefix that is not empty is
  put, with a slash, before what an absent one gives.
\<close>

theorem empty_root_like_absent_root:
  "store_at_prefix (args\<lparr>s3_root := Some []\<rparr>) = store_at_prefix (args\<lparr>s3_root := None\<rparr>)
   \<and> file_key w (args\<lparr>s3_root := Some []\<rparr>) = file_key w (args\<lparr>s3_root := None\<rparr>)
   \<and> dir_key w (args\<lparr>s3_root := Some []\<rparr>) filepath
       = dir_key w (args\<lparr>s3_root := None\<rparr>) filepath
   \<and> upload_file w (args\<lparr>s3_root := Some []\<rparr>) = upload_file w (args\<lparr>s3_root := None\<rparr>)
   \<and> upload_dir w (args\<lparr>s3_root := Some []\<rparr>) = upload_dir w (args\<lparr>s3_root := None\<rparr>)
   \<and> store_arg w (''--s3_root'', []) ns = Inr (ns\<lparr>ns_s3_root := Some []\<rparr>)
   \<and> (r \<noteq> [] \<longrightarrow>
        store_at_prefix (args\<lparr>s3_root := Some r\<rparr>)
          = r @ ''/'' @ store_at_prefix (args\<lparr>s3_root := None\<rparr>))"
proof -
  have p: "store_at_prefix (args\<lparr>s3_root := Some []\<rparr>) = store_at_prefix (args\<lparr>s3_root := None\<rparr>)"
    by (simp add: store_at_prefix_root)
  have f: "file_key w (args\<lparr>s3_root := Some []\<rparr>) = file_key w (args\<lparr>s3_root := None\<rparr>)"
    by (simp add: file_key_def p)
  have d: "dir_key w (args\<lparr>s3_root := Some []\<rparr>) filepath
             = dir_key w (args\<lparr>s3_root := None\<rparr>) filepath"
    by (simp add: dir_key_def p split: sum.splits)
  have uf: "upload_file w (args\<lparr>s3_root := Some []\<rparr>) = upload_file w (args\<lparr>s3_root := None\<rparr>)"
    by (simp add: upload_file_def f get_s3_client_def Let_def split: option.splits prod.splits)
  have ue: "\<And>c fs. upload_each w (args\<lparr>s3_root := Some []\<rparr>) c fs
                  = upload_each w (args\<lparr>s3_root := None\<rparr>) c fs"
    by (rule upload_each_cong) (simp_all add: p)
  have ud: "upload_dir w (args\<lparr>s3_root := Some []\<rparr>) = upload_dir w (args\<lparr>s3_root := None\<rparr>)"
    by (simp add: upload_dir_def ue get_s3_client_def files_of_def)
  have sa: "store_arg w (''--s3_root'', []) ns = Inr (ns\<lparr>ns_s3_root := Some []\<rparr>)"
    by simp
  have r: "r \<noteq> [] \<longrightarrow> store_at_prefix (args\<lparr>s3_root := Some r\<rparr>)
             = r @ ''/'' @ store_at_prefix (args\<lparr>s3_root := None\<rparr>)"
    by (simp add: store_at_prefix_root)
  from p f d uf ud sa r show ?thesis by blast
qed

theorem empty_root_like_absent_root_witness:
  "''assets'' \<noteq> []
   \<and> store_at_prefix (demo_dir_args\<lparr>s3_root := Some ''assets''\<rparr>) = ''assets/store''
   \<and> store_at_prefix (demo_dir_args\<lparr>s3_root := None\<rparr>) = ''store''
   \<and> store_at_prefix (demo_dir_args\<lparr>s3_root := Some []\<rparr>) = ''store''"
  using empty_root_like_absent_root [of demo_dir_args demo_world "Path [] []" defaults "''assets''"]
  by (simp add: demo_defs key_defs)

section \<open>C9: the root prefix is embedded as it was given\<close>

text \<open>
  Claim C9, as amended. The root prefix is never normalised: a root prefix that is not
  empty stands at the head of the key of a single file and of every key of a directory
  upload exactly as it was given, followed by one slash and the stripped destination
  path. So a root prefix that ends with a slash, or that has two slashes in a row, gives
  keys with two slashes in a row, and one that starts with a slash gives keys that
  start with a slash. Only the destination path is stripped.
\<close>

theorem root_prefix_verbatim:
  assumes "r \<noteq> []"
  shows "file_key w (args\<lparr>s3_root := Some r\<rparr>)
           = r @ ''/'' @ str_strip CHR ''/'' (s3_path args) @ ''/''
             @ basename (os_sep w) (str_path (os_sep w) (path args))
     \<and> (\<forall>filepath rel. relative_to (os_sep w) filepath (path args) = Inr rel \<longrightarrow>
          dir_key w (args\<lparr>s3_root := Some r\<rparr>) filepath
            = Inr (r @ ''/'' @ str_strip CHR ''/'' (s3_path args) @ ''/''
                   @ as_posix (os_sep w) rel))
     \<and> (last r = CHR ''/'' \<or> has_double_slash r \<longrightarrow>
          has_double_slash (file_key w (args\<lparr>s3_root := Some r\<rparr>))
          \<and> (\<forall>filepath key. dir_key w (args\<lparr>s3_root := Some r\<rparr>) filepath = Inr key
                \<longrightarrow> has_double_slash key))
     \<and> (hd r = CHR ''/'' \<longrightarrow>
          hd (file_key w (args\<lparr>s3_root := Some r\<rparr>)) = CHR ''/''
          \<and> (\<forall>filepath key. dir_key w (args\<lparr>s3_root := Some r\<rparr>) filepath = Inr key
                \<longrightarrow> hd key = CHR ''/''))"
proof -
  let ?a = "args\<lparr>s3_root := Some r\<rparr>"
  have p: "store_at_prefix ?a = r @ CHR ''/'' # str_strip CHR ''/'' (s3_path args)"
    using assms by (simp add: store_at_prefix_root)
  have fk: "file_key w ?a = r @ ''/'' @ str_strip CHR ''/'' (s3_path args) @ ''/''
             @ basename (os_sep w) (str_path (os_sep w) (path args))"
    by (simp add: file_key_def p)
  have dk: "\<forall>filepath rel. relative_to (os_sep w) filepath (path args) = Inr rel \<longrightarrow>
          dir_key w ?a filepath
            = Inr (r @ ''/'' @ str_strip CHR ''/'' (s3_path args) @ ''/''
                   @ as_posix (os_sep w) rel)"
    by (simp add: dir_key_def p)
  have ds: "last r = CHR ''/'' \<or> has_double_slash r \<longrightarrow>
          has_double_slash (file_key w ?a)
          \<and> (\<forall>filepath key. dir_key w ?a filepath = Inr key \<longrightarrow> has_double_slash key)"
  proof
    assume h: "last r = CHR ''/'' \<or> has_double_slash r"
    have pre: "\<And>rest. has_double_slash (r @ CHR ''/'' # rest)"
    proof -
      fix rest
      from h show "has_double_slash (r @ CHR ''/'' # rest)"
      proof
        assume "last r = CHR ''/''"
        with assms show ?thesis by (rule has_double_slash_after_slash)
      next
        assume "has_double_slash r"
        then show ?thesis by (rule has_double_slash_append_left)
      qed
    qed
    have a: "has_double_slash (file_key w ?a)"
      using pre by (simp add: fk)
    have b: "\<forall>filepath key. dir_key w ?a filepath = Inr key \<longrightarrow> has_double_slash key"
      using pre by (auto simp: dir_key_def p split: sum.splits)
    from a b show "has_double_slash (file_key w ?a)
          \<and> (\<forall>filepath key. dir_key w ?a filepath = Inr key \<longrightarrow> has_double_slash key)"
      by blast
  qed
  have hd: "hd r = CHR ''/'' \<longrightarrow>
          hd (file_key w ?a) = CHR ''/''
          \<and> (\<forall>filepath key. dir_key w ?a filepath = Inr key \<longrightarrow> hd key = CHR ''/'')"
  proof
    assume h: "hd r = CHR ''/''"
    have pre: "\<And>rest. hd (r @ rest) = CHR ''/''"
      using assms h by simp
    have a: "hd (file_key w ?a) = CHR ''/''"
      using pre by (simp add: fk)
    have b: "\<forall>filepath key. dir_key w ?a filepath = Inr key \<longrightarrow> hd key = CHR ''/''"
      using pre by (auto simp: dir_key_def p split: sum.splits)
    from a b show "hd (file_key w ?a) = CHR ''/''
          \<and> (\<forall>filepath key. dir_key w ?a filepath = Inr key \<longrightarrow> hd key = CHR ''/'')"
      by (intro conjI)
  qed
  from fk dk ds hd show ?thesis by (intro conjI)
qed

theorem root_prefix_verbatim_witness:
  "''assets/'' \<noteq> [] \<and> last ''assets/'' = CHR ''/''
   \<and> file_key demo_world (demo_file_args\<lparr>s3_root := Some ''assets/'', s3_path := ''dest''\<rparr>)
       = ''assets//dest/report.pdf''
   \<and> has_double_slash
        (file_key demo_world (demo_file_args\<lparr>s3_root := Some ''assets/'', s3_path := ''dest''\<rparr>))
   \<and> relative_to (os_sep demo_world) (Path ''/'' [''opt'', ''tool'', ''site'', ''c.png''])
        (path (demo_dir_args\<lparr>s3_path := ''dest''\<rparr>)) = Inr (Path [] [''c.png''])
   \<and> dir_key demo_world (demo_dir_args\<lparr>s3_root := Some ''assets/'', s3_path := ''dest''\<rparr>)
        (Path ''/'' [''opt'', ''tool'', ''site'', ''c.png'']) = Inr ''assets//dest/c.png''
   \<and> has_double_slash ''assets//dest/c.png''
   \<and> ''/assets'' \<noteq> [] \<and> hd ''/assets'' = CHR ''/''
   \<and> file_key demo_world (demo_file_args\<lparr>s3_root := Some ''/assets'', s3_path := ''dest''\<rparr>)
       = ''/assets/dest/report.pdf''
   \<and> hd (file_key demo_world (demo_file_args\<lparr>s3_root := Some ''/assets'', s3_path := ''dest''\<rparr>))
       = CHR ''/''
   \<and> dir_key demo_world (demo_dir_args\<lparr>s3_root := Some ''/assets'', s3_path := ''dest''\<rparr>)
        (Path ''/'' [''opt'', ''tool'', ''site'', ''c.png'']) = Inr ''/assets/dest/c.png''"
  using root_prefix_verbatim [of "''assets/''" demo_world "demo_file_args\<lparr>s3_path := ''dest''\<rparr>"]
    root_prefix_verbatim [of "''assets/''" demo_world "demo_dir_args\<lparr>s3_path := ''dest''\<rparr>"]
    root_prefix_verbatim [of "''/assets''" demo_world "demo_file_args\<lparr>s3_path := ''dest''\<rparr>"]
    root_prefix_verbatim [of "''/assets''" demo_world "demo_dir_args\<lparr>s3_path := ''dest''\<rparr>"]
  by (simp add: demo_defs key_defs relative_to_def)

text \<open>
  The claim as it was stated promises two slashes in a row for every root prefix with a
  leading, trailing or repeated slash. With the root prefix \<^verbatim>\<open>/assets\<close>, which has a
  leading slash, the key is \<^verbatim>\<open>/assets/store/report.pdf\<close>: no two slashes in a row.
\<close>

theorem root_leading_slash_counterexample:
  "hd ''/assets'' = CHR ''/''
   \<and> file_key demo_world (demo_file_args\<lparr>s3_root := Some ''/assets'', s3_path := ''store''\<rparr>)
       = ''/assets/store/report.pdf''
   \<and> \<not> has_double_slash
        (file_key demo_world (demo_file_args\<lparr>s3_root := Some ''/assets'', s3_path := ''store''\<rparr>))"
  by (simp add: demo_defs key_defs)

section \<open>Auxiliary facts about runs\<close>

lemma started_Nil [simp]: "started [] = []"
  by (simp add: started_def)

lemma started_append [simp]: "started (xs @ ys) = started xs @ started ys"
  by (simp add: started_def)

lemma started_Cons_Started [simp]: "started (Started c # evs) = c # started evs"
  by (simp add: started_def)

lemma started_Cons_Completed [simp]: "started (Completed c # evs) = started evs"
  by (simp add: started_def)

lemma started_Cons_Failed [simp]: "started (Failed c # evs) = started evs"
  by (simp add: started_def)

lemma completed_Nil [simp]: "completed [] = []"
  by (simp add: completed_def)

lemma completed_append [simp]: "completed (xs @ ys) = completed xs @ completed ys"
  by (simp add: completed_def)

lemma completed_Cons_Started [simp]: "completed (Started c # evs) = completed evs"
  by (simp add: completed_def)

lemma completed_Cons_Completed [simp]: "completed (Completed c # evs) = c # completed evs"
  by (simp add: completed_def)

lemma completed_Cons_Failed [simp]: "completed (Failed c # evs) = completed evs"
  by (simp add: completed_def)

lemma client_upload_file_cases:
  "(\<exists>chunks. transfer w cl call = (chunks, None)
       \<and> client_upload_file w cl call cb st
           = ([Started call, Completed call], fold cb chunks st, None))
   \<or> (\<exists>chunks msg. transfer w cl call = (chunks, Some msg)
       \<and> client_upload_file w cl call cb st
           = ([Started call, Failed call], fold cb chunks st, Some (ClientError msg)))"
  by (cases "transfer w cl call") (auto simp: client_upload_file_def split: option.splits)

text \<open>What the single-file upload sends.\<close>

lemma upload_file_started:
  "guess_type w (str_path (os_sep w) (path args)) = Some m \<Longrightarrow>
   started (fst (upload_file w args))
     = [\<lparr> Filename = str_path (os_sep w) (path args), Bucket = s3_bucket args,
          Key = file_key w args, ACL = s3_visibility args, ContentType = m \<rparr>]"
  using client_upload_file_cases
          [of w "get_s3_client args"
              "\<lparr> Filename = str_path (os_sep w) (path args), Bucket = s3_bucket args,
                 Key = file_key w args, ACL = s3_visibility args, ContentType = m \<rparr>"
              bytes_count "(0, tqdm_new (st_size w (path args)))"]
  by (auto simp: upload_file_def Let_def split: prod.splits)

lemma upload_file_unguessable:
  "guess_type w (str_path (os_sep w) (path args)) = None \<Longrightarrow>
   upload_file w args
     = ([], tqdm_new (st_size w (path args)),
        Some (Exception (''Failed to guess mimetype of `''
                @ str_path (os_sep w) (path args) @ ''`'')))"
  by (simp add: upload_file_def Let_def)

section \<open>C2: the key of a single-file upload\<close>

text \<open>
  Claim C2, as amended. For every single-file upload the destination key is the root
  prefix (when it is set and not empty), the destination path without its leading and
  trailing slashes, and the file's base name, joined by single slashes; and when the
  content type can be guessed, that key is the key of the one upload call made. The key
  as a whole is not stripped of anything: slashes inside the root prefix or inside the
  destination path stay.
\<close>

theorem single_file_key:
  "file_key w args =
     str_join ''/''
       ((case s3_root args of None \<Rightarrow> [] | Some r \<Rightarrow> if r = [] then [] else [r])
        @ [str_strip CHR ''/'' (s3_path args),
           basename (os_sep w) (str_path (os_sep w) (path args))])
   \<and> (\<forall>m. guess_type w (str_path (os_sep w) (path args)) = Some m \<longrightarrow>
        map Key (started (fst (upload_file w args))) = [file_key w args])"
proof
  show "file_key w args =
     str_join ''/''
       ((case s3_root args of None \<Rightarrow> [] | Some r \<Rightarrow> if r = [] then [] else [r])
        @ [str_strip CHR ''/'' (s3_path args),
           basename (os_sep w) (str_path (os_sep w) (path args))])"
    by (simp add: file_key_def store_at_prefix_def truthy_def format_prefix_def Let_def
          split: option.splits)
  show "\<forall>m. guess_type w (str_path (os_sep w) (path args)) = Some m \<longrightarrow>
        map Key (started (fst (upload_file w args))) = [file_key w args]"
    by (simp add: upload_file_started)
qed

theorem single_file_key_witness:
  "guess_type demo_world (str_path (os_sep demo_world) (path demo_file_args))
     = Some ''application/pdf''
   \<and> map Key (started (fst (upload_file demo_world demo_file_args)))
       = [''media/docs/report.pdf'']
   \<and> file_key demo_world demo_file_args = ''media/docs/report.pdf''"
  using single_file_key [of demo_world demo_file_args]
  by (simp add: demo_defs key_defs)

text \<open>
  The claim as it was stated has the whole key stripped of redundant slashes. With the
  root prefix \<^verbatim>\<open>media/\<close> and the destination path \<^verbatim>\<open>/docs/\<close> the key of \<^verbatim>\<open>report.pdf\<close>
  is \<^verbatim>\<open>media//docs/report.pdf\<close>, with two slashes in a row.
\<close>

theorem single_file_key_counterexample:
  "file_key demo_world (demo_file_args\<lparr>s3_root := Some ''media/''\<rparr>)
     = ''media//docs/report.pdf''
   \<and> has_double_slash (file_key demo_world (demo_file_args\<lparr>s3_root := Some ''media/''\<rparr>))"
  by (simp add: demo_defs key_defs)

section \<open>Auxiliary facts about the directory loop\<close>

lemma relative_to_below:
  "relative_to sp (Path (anchor d) (parts d @ rel)) d = Inr (Path [] rel)"
  by (simp add: relative_to_def)

lemma as_posix_relative: "as_posix sp (Path [] rel) = relative_posix rel"
  by (simp add: as_posix_def relative_posix_def)

lemma dir_key_below:
  "dir_key w args (Path (anchor (path args)) (parts (path args) @ rel))
     = Inr (store_at_prefix args @ ''/'' @ relative_posix rel)"
  by (simp add: dir_key_def relative_to_below as_posix_relative)

lemma files_of_regular_files:
  "files_of w args
     = map (\<lambda>rel. Path (anchor (path args)) (parts (path args) @ rel))
         (regular_files w (path args))"
  by (simp add: files_of_def rglob_def regular_files_def filter_map o_def)

text \<open>One round of the loop, by what becomes of the file.\<close>

lemma upload_each_no_call:
  "call_for w args f = None \<Longrightarrow>
   fst (upload_each w args cl (f # rest)) = []
   \<and> (\<exists>e. snd (upload_each w args cl (f # rest)) = Some e)"
  by (auto simp: call_for_def split: sum.splits option.splits)

lemma upload_each_unguessable_head:
  "dir_key w args f = Inr key \<Longrightarrow> guess_type w (str_path (os_sep w) f) = None \<Longrightarrow>
   upload_each w args cl (f # rest)
     = ([], Some (Exception (''Failed to guess mimetype of `''
                    @ str_path (os_sep w) f @ ''`'')))"
  by simp

lemma upload_each_call_fails:
  assumes "call_for w args f = Some c" and "snd (transfer w cl c) \<noteq> None"
  shows "\<exists>e. upload_each w args cl (f # rest) = ([Started c, Failed c], Some e)"
proof -
  from assms(1) obtain key m where k: "dir_key w args f = Inr key"
    and g: "guess_type w (str_path (os_sep w) f) = Some m"
    and c: "c = dir_call w args f key m"
    by (auto simp: call_for_def split: sum.splits option.splits)
  from assms(2) obtain chunks msg where t: "transfer w cl c = (chunks, Some msg)"
    by (cases "transfer w cl c") auto
  have "client_upload_file w cl c (\<lambda>_ u. u) ()
          = ([Started c, Failed c], fold (\<lambda>_ u. u) chunks (), Some (ClientError msg))"
    by (simp add: client_upload_file_def t)
  then have "upload_each w args cl (f # rest) = ([Started c, Failed c], Some (ClientError msg))"
    by (simp add: k g c [symmetric])
  then show ?thesis by blast
qed

lemma upload_each_call_completes:
  assumes "call_for w args f = Some c" and "snd (transfer w cl c) = None"
  shows "upload_each w args cl (f # rest)
           = (Started c # Completed c # fst (upload_each w args cl rest),
              snd (upload_each w args cl rest))"
proof -
  from assms(1) obtain key m where k: "dir_key w args f = Inr key"
    and g: "guess_type w (str_path (os_sep w) f) = Some m"
    and c: "c = dir_call w args f key m"
    by (auto simp: call_for_def split: sum.splits option.splits)
  from assms(2) obtain chunks where t: "transfer w cl c = (chunks, None)"
    by (cases "transfer w cl c") auto
  have "client_upload_file w cl c (\<lambda>_ u. u) ()
          = ([Started c, Completed c], fold (\<lambda>_ u. u) chunks (), None)"
    by (simp add: client_upload_file_def t)
  then show ?thesis
    by (simp add: k g c [symmetric] split: prod.splits)
qed

lemma call_for_fields:
  "call_for w args f = Some c \<Longrightarrow>
   Filename c = str_path (os_sep w) f
   \<and> guess_type w (str_path (os_sep w) f) = Some (ContentType c)
   \<and> dir_key w args f = Inr (Key c)
   \<and> Bucket c = s3_bucket args \<and> ACL c = s3_visibility args"
  by (auto simp: call_for_def dir_call_def split: sum.splits option.splits)

text \<open>The files before the first failing one are uploaded one after the other.\<close>

lemma upload_each_through:
  "\<forall>f \<in> set pre. \<not> file_fails w args f \<Longrightarrow>
   upload_each w args (get_s3_client args) (pre @ rest)
     = (concat (map (\<lambda>f. case call_for w args f of
                              None \<Rightarrow> []
                            | Some c \<Rightarrow> [Started c, Completed c]) pre)
          @ fst (upload_each w args (get_s3_client args) rest),
        snd (upload_each w args (get_s3_client args) rest))"
proof (induction pre)
  case Nil
  show ?case by simp
next
  case (Cons f pre)
  from Cons.prems have nf: "\<not> file_fails w args f" by simp
  then obtain c where c: "call_for w args f = Some c"
    and t: "snd (transfer w (get_s3_client args) c) = None"
    by (auto simp: file_fails_def split: option.splits)
  from Cons.prems have "\<forall>f \<in> set pre. \<not> file_fails w args f" by simp
  then have ih: "upload_each w args (get_s3_client args) (pre @ rest)
     = (concat (map (\<lambda>f. case call_for w args f of
                              None \<Rightarrow> []
                            | Some c \<Rightarrow> [Started c, Completed c]) pre)
          @ fst (upload_each w args (get_s3_client args) rest),
        snd (upload_each w args (get_s3_client args) rest))"
    by (rule Cons.IH)
  have "upload_each w args (get_s3_client args) (f # (pre @ rest))
          = (Started c # Completed c # fst (upload_each w args (get_s3_client args) (pre @ rest)),
             snd (upload_each w args (get_s3_client args) (pre @ rest)))"
    using c t by (rule upload_each_call_completes)
  then show ?case by (simp add: ih c)
qed

lemma upload_each_stops:
  "file_fails w args f \<Longrightarrow>
   fst (upload_each w args (get_s3_client args) (f # rest))
     = (case call_for w args f of None \<Rightarrow> [] | Some c \<Rightarrow> [Started c, Failed c])
   \<and> (\<exists>e. snd (upload_each w args (get_s3_client args) (f # rest)) = Some e)"
proof (cases "call_for w args f")
  case None
  then show ?thesis using upload_each_no_call [of w args f "get_s3_client args" rest] by simp
next
  case (Some c)
  assume "file_fails w args f"
  with Some have "snd (transfer w (get_s3_client args) c) \<noteq> None"
    by (simp add: file_fails_def)
  with Some obtain e where
    "upload_each w args (get_s3_client args) (f # rest) = ([Started c, Failed c], Some e)"
    using upload_each_call_fails by blast
  with Some show ?thesis by simp
qed

lemma through_completed:
  "\<forall>f \<in> set pre. \<not> file_fails w args f \<Longrightarrow>
   map Some (completed (concat (map (\<lambda>f. case call_for w args f of
                              None \<Rightarrow> []
                            | Some c \<Rightarrow> [Started c, Completed c]) pre)))
     = map (call_for w args) pre"
  by (induction pre) (auto simp: file_fails_def split: option.splits)

lemma through_started:
  "\<forall>f \<in> set pre. \<not> file_fails w args f \<Longrightarrow>
   map Some (started (concat (map (\<lambda>f. case call_for w args f of
                              None \<Rightarrow> []
                            | Some c \<Rightarrow> [Started c, Completed c]) pre)))
     = map (call_for w args) pre"
  by (induction pre) (auto simp: file_fails_def split: option.splits)

lemma through_events:
  "\<forall>f \<in> set pre. \<not> file_fails w args f \<Longrightarrow>
   concat (map (\<lambda>c. [Started c, Completed c])
     (completed (concat (map (\<lambda>f. case call_for w args f of
                              None \<Rightarrow> []
                            | Some c \<Rightarrow> [Started c, Completed c]) pre))))
   = concat (map (\<lambda>f. case call_for w args f of
                              None \<Rightarrow> []
                            | Some c \<Rightarrow> [Started c, Completed c]) pre)"
  by (induction pre) (auto simp: file_fails_def split: option.splits)



lemmas run_defs = files_of_def rglob_def call_for_def dir_call_def file_fails_def
  get_s3_client_def upload_dir_def client_upload_file_def demo_denied_world_def
  demo_png_world_def

section \<open>C5: a directory upload stops at the first file that fails\<close>

text \<open>
  Claim C5. Let the \<open>i\<close>-th file of the enumeration be the first that fails, by a content
  type that cannot be guessed or by an error of the storage client. Then the run ends
  with an error; the uploads that completed are exactly those of the files before the
  \<open>i\<close>-th, in their order, and the run leaves them as they are (the program has no call
  that would take an object back); the calls that were started are those and, when the
  \<open>i\<close>-th file got as far as a call, the call for it, so no file after the \<open>i\<close>-th is ever
  attempted; and every call has completed before the next one starts.
\<close>

theorem directory_upload_stops_at_first_failure:
  assumes "i < length (files_of w args)"
    and "\<forall>j<i. \<not> file_fails w args (files_of w args ! j)"
    and "file_fails w args (files_of w args ! i)"
  shows "(\<exists>e. snd (upload_dir w args) = Some e)
     \<and> map Some (completed (fst (upload_dir w args)))
         = map (call_for w args) (take i (files_of w args))
     \<and> map Some (started (fst (upload_dir w args)))
         = map (call_for w args) (take i (files_of w args))
           @ (case call_for w args (files_of w args ! i) of None \<Rightarrow> [] | Some c \<Rightarrow> [Some c])
     \<and> fst (upload_dir w args)
         = concat (map (\<lambda>c. [Started c, Completed c]) (completed (fst (upload_dir w args))))
           @ (case call_for w args (files_of w args ! i) of
                None \<Rightarrow> []
              | Some c \<Rightarrow> [Started c, Failed c])"
proof -
  define fs where "fs = files_of w args"
  define pre where "pre = take i fs"
  define f where "f = fs ! i"
  define rest where "rest = drop (Suc i) fs"
  define cl where "cl = get_s3_client args"
  define through where
    "through = concat (map (\<lambda>f. case call_for w args f of
                              None \<Rightarrow> []
                            | Some c \<Rightarrow> [Started c, Completed c]) pre)"
  define last_events where
    "last_events = (case call_for w args f of None \<Rightarrow> [] | Some c \<Rightarrow> [Started c, Failed c])"
  from assms(1) have i: "i < length fs" by (simp add: fs_def)
  have split: "fs = pre @ f # rest"
    unfolding pre_def f_def rest_def using i by (rule id_take_nth_drop)
  have ok: "\<forall>g \<in> set pre. \<not> file_fails w args g"
  proof
    fix g
    assume "g \<in> set pre"
    then obtain j where j: "j < length pre" and g: "g = pre ! j"
      by (auto simp: in_set_conv_nth)
    from j have ji: "j < i" by (simp add: pre_def)
    with g have "g = fs ! j" by (simp add: pre_def)
    with ji assms(2) show "\<not> file_fails w args g" by (simp add: fs_def)
  qed
  from assms(3) have bad: "file_fails w args f" by (simp add: f_def fs_def)
  have run: "upload_each w args cl (pre @ f # rest)
               = (through @ fst (upload_each w args cl (f # rest)),
                  snd (upload_each w args cl (f # rest)))"
    unfolding cl_def through_def using ok by (rule upload_each_through)
  have stop: "fst (upload_each w args cl (f # rest)) = last_events
              \<and> (\<exists>e. snd (upload_each w args cl (f # rest)) = Some e)"
    unfolding cl_def last_events_def using bad by (rule upload_each_stops)
  have dir: "upload_dir w args = upload_each w args cl (pre @ f # rest)"
    by (simp add: upload_dir_def cl_def fs_def [symmetric] split [symmetric])
  have evs: "fst (upload_dir w args) = through @ last_events"
    by (simp add: dir run stop del: upload_each.simps)
  have err: "\<exists>e. snd (upload_dir w args) = Some e"
    using stop by (simp add: dir run del: upload_each.simps)
  have c_last: "completed last_events = []"
    by (simp add: last_events_def split: option.splits)
  have s_last: "map Some (started last_events)
                  = (case call_for w args f of None \<Rightarrow> [] | Some c \<Rightarrow> [Some c])"
    by (simp add: last_events_def split: option.splits)
  have c_through: "map Some (completed through) = map (call_for w args) pre"
    unfolding through_def using ok by (rule through_completed)
  have s_through: "map Some (started through) = map (call_for w args) pre"
    unfolding through_def using ok by (rule through_started)
  have e_through: "concat (map (\<lambda>c. [Started c, Completed c]) (completed through)) = through"
    unfolding through_def using ok by (rule through_events)
  have A: "map Some (completed (fst (upload_dir w args))) = map (call_for w args) pre"
    by (simp add: evs c_last c_through)
  have B: "map Some (started (fst (upload_dir w args)))
             = map (call_for w args) pre
               @ (case call_for w args f of None \<Rightarrow> [] | Some c \<Rightarrow> [Some c])"
    by (simp add: evs s_last s_through)
  have C: "fst (upload_dir w args)
             = concat (map (\<lambda>c. [Started c, Completed c]) (completed (fst (upload_dir w args))))
               @ last_events"
    by (simp add: evs c_last e_through)
  from err A B C show ?thesis
    unfolding last_events_def pre_def f_def fs_def by blast
qed

theorem directory_upload_stops_at_first_failure_witness:
  "1 < length (files_of demo_denied_world demo_dir_args)
   \<and> \<not> file_fails demo_denied_world demo_dir_args (files_of demo_denied_world demo_dir_args ! 0)
   \<and> file_fails demo_denied_world demo_dir_args (files_of demo_denied_world demo_dir_args ! 1)
   \<and> completed (fst (upload_dir demo_denied_world demo_dir_args))
       = [\<lparr> Filename = ''/opt/tool/site/a/b.txt'', Bucket = ''bucket'',
            Key = ''assets/store/a/b.txt'', ACL = ''private'', ContentType = ''text/plain'' \<rparr>]
   \<and> started (fst (upload_dir demo_denied_world demo_dir_args))
       = [\<lparr> Filename = ''/opt/tool/site/a/b.txt'', Bucket = ''bucket'',
            Key = ''assets/store/a/b.txt'', ACL = ''private'', ContentType = ''text/plain'' \<rparr>,
          \<lparr> Filename = ''/opt/tool/site/c.png'', Bucket = ''bucket'',
            Key = ''assets/store/c.png'', ACL = ''private'', ContentType = ''image/png'' \<rparr>]"
proof -
  let ?w = demo_denied_world and ?a = demo_dir_args
  have fs: "files_of ?w ?a
              = [Path ''/'' [''opt'', ''tool'', ''site'', ''a'', ''b.txt''],
                 Path ''/'' [''opt'', ''tool'', ''site'', ''c.png'']]"
    by (simp add: run_defs demo_defs)
  have c0: "call_for ?w ?a (Path ''/'' [''opt'', ''tool'', ''site'', ''a'', ''b.txt''])
              = Some \<lparr> Filename = ''/opt/tool/site/a/b.txt'', Bucket = ''bucket'',
                       Key = ''assets/store/a/b.txt'', ACL = ''private'',
                       ContentType = ''text/plain'' \<rparr>"
    by (simp add: run_defs demo_defs key_defs)
  have c1: "call_for ?w ?a (Path ''/'' [''opt'', ''tool'', ''site'', ''c.png''])
              = Some \<lparr> Filename = ''/opt/tool/site/c.png'', Bucket = ''bucket'',
                       Key = ''assets/store/c.png'', ACL = ''private'',
                       ContentType = ''image/png'' \<rparr>"
    by (simp add: run_defs demo_defs key_defs)
  have h1: "1 < length (files_of ?w ?a)" by (simp add: fs)
  have ok0: "\<not> file_fails ?w ?a (files_of ?w ?a ! 0)"
    by (simp add: fs file_fails_def c0) (simp add: demo_denied_world_def demo_world_def)
  have h2: "\<forall>j<1. \<not> file_fails ?w ?a (files_of ?w ?a ! j)"
    using ok0 by simp
  have h3: "file_fails ?w ?a (files_of ?w ?a ! 1)"
    by (simp add: fs file_fails_def c1) (simp add: demo_denied_world_def demo_world_def)
  note t = directory_upload_stops_at_first_failure [OF h1 h2 h3]
  from t have "map Some (completed (fst (upload_dir ?w ?a)))
                 = map (call_for ?w ?a) (take 1 (files_of ?w ?a))"
    by blast
  then have A: "completed (fst (upload_dir ?w ?a))
       = [\<lparr> Filename = ''/opt/tool/site/a/b.txt'', Bucket = ''bucket'',
            Key = ''assets/store/a/b.txt'', ACL = ''private'', ContentType = ''text/plain'' \<rparr>]"
    by (simp add: fs c0 map_eq_Cons_conv)
  from t have "map Some (started (fst (upload_dir ?w ?a)))
         = map (call_for ?w ?a) (take 1 (files_of ?w ?a))
           @ (case call_for ?w ?a (files_of ?w ?a ! 1) of None \<Rightarrow> [] | Some c \<Rightarrow> [Some c])"
    by blast
  then have B: "started (fst (upload_dir ?w ?a))
       = [\<lparr> Filename = ''/opt/tool/site/a/b.txt'', Bucket = ''bucket'',
            Key = ''assets/store/a/b.txt'', ACL = ''private'', ContentType = ''text/plain'' \<rparr>,
          \<lparr> Filename = ''/opt/tool/site/c.png'', Bucket = ''bucket'',
            Key = ''assets/store/c.png'', ACL = ''private'', ContentType = ''image/png'' \<rparr>]"
    by (simp add: fs c0 c1 map_eq_Cons_conv)
  from h1 ok0 h3 A B show ?thesis by blast
qed

lemma upload_each_content_types:
  "\<forall>c \<in> set (started (fst (upload_each w args cl fs))).
     guess_type w (Filename c) = Some (ContentType c)"
proof (induction fs)
  case Nil
  show ?case by simp
next
  case (Cons f fs)
  show ?case
  proof (cases "call_for w args f")
    case None
    then have "fst (upload_each w args cl (f # fs)) = []"
      using upload_each_no_call [of w args f cl fs] by blast
    then show ?thesis by (simp del: upload_each.simps)
  next
    case (Some c)
    then have g: "guess_type w (Filename c) = Some (ContentType c)"
      using call_for_fields [of w args f c] by simp
    show ?thesis
    proof (cases "snd (transfer w cl c) = None")
      case True
      with Some have "upload_each w args cl (f # fs)
           = (Started c # Completed c # fst (upload_each w args cl fs),
              snd (upload_each w args cl fs))"
        by (rule upload_each_call_completes)
      with g Cons.IH show ?thesis by (simp del: upload_each.simps)
    next
      case False
      with Some obtain e where
        "upload_each w args cl (f # fs) = ([Started c, Failed c], Some e)"
        using upload_each_call_fails by blast
      with g show ?thesis by (simp del: upload_each.simps)
    qed
  qed
qed

lemma upload_each_unguessable:
  "f \<in> set fs \<Longrightarrow> guess_type w (str_path (os_sep w) f) = None \<Longrightarrow>
   \<exists>e. snd (upload_each w args cl fs) = Some e"
proof (induction fs)
  case Nil
  then show ?case by simp
next
  case (Cons g fs)
  show ?case
  proof (cases "call_for w args g")
    case None
    then show ?thesis using upload_each_no_call [of w args g cl fs] by blast
  next
    case (Some c)
    then have "guess_type w (str_path (os_sep w) g) = Some (ContentType c)"
      using call_for_fields [of w args g c] by simp
    with Cons.prems(2) have "f \<noteq> g" by auto
    with Cons.prems(1) have mem: "f \<in> set fs" by simp
    show ?thesis
    proof (cases "snd (transfer w cl c) = None")
      case True
      with Some have "upload_each w args cl (g # fs)
           = (Started c # Completed c # fst (upload_each w args cl fs),
              snd (upload_each w args cl fs))"
        by (rule upload_each_call_completes)
      moreover have "\<exists>e. snd (upload_each w args cl fs) = Some e"
        using mem Cons.prems(2) by (rule Cons.IH)
      ultimately show ?thesis by (simp del: upload_each.simps)
    next
      case False
      with Some obtain e where
        "upload_each w args cl (g # fs) = ([Started c, Failed c], Some e)"
        using upload_each_call_fails by blast
      then show ?thesis by (simp del: upload_each.simps)
    qed
  qed
qed

lemma files_of_dir_key:
  "f \<in> set (files_of w args) \<Longrightarrow> \<exists>key. dir_key w args f = Inr key"
  by (auto simp: files_of_regular_files dir_key_below)

section \<open>C3: a content type that cannot be guessed is fatal\<close>

text \<open>
  Claim C3. When the content type of the input file cannot be guessed, the single-file
  upload ends with the exception before anything is sent. When the content type of a
  file of the directory cannot be guessed, the directory upload ends with an error and no
  upload call is ever started for that file; when the run reaches the file, the error it
  ends with is the exception for that file. In both uploads every call that is started
  carries the content type guessed for its file, so no object is uploaded without one.
\<close>

theorem unguessable_type_is_fatal:
  "(guess_type w (str_path (os_sep w) (path args)) = None \<longrightarrow>
      upload_file w args
        = ([], tqdm_new (st_size w (path args)),
           Some (Exception (''Failed to guess mimetype of `''
                   @ str_path (os_sep w) (path args) @ ''`''))))
   \<and> (\<forall>f \<in> set (files_of w args).
        guess_type w (str_path (os_sep w) f) = None \<longrightarrow>
          (\<exists>e. snd (upload_dir w args) = Some e)
          \<and> (\<forall>c \<in> set (started (fst (upload_dir w args))).
                Filename c \<noteq> str_path (os_sep w) f))
   \<and> (\<forall>pre f rest.
        files_of w args = pre @ f # rest
        \<and> (\<forall>g \<in> set pre. \<not> file_fails w args g)
        \<and> guess_type w (str_path (os_sep w) f) = None \<longrightarrow>
          snd (upload_dir w args)
            = Some (Exception (''Failed to guess mimetype of `''
                      @ str_path (os_sep w) f @ ''`'')))
   \<and> (\<forall>c \<in> set (started (fst (upload_file w args))).
        guess_type w (Filename c) = Some (ContentType c))
   \<and> (\<forall>c \<in> set (started (fst (upload_dir w args))).
        guess_type w (Filename c) = Some (ContentType c))"
proof (intro conjI)
  show "guess_type w (str_path (os_sep w) (path args)) = None \<longrightarrow>
      upload_file w args
        = ([], tqdm_new (st_size w (path args)),
           Some (Exception (''Failed to guess mimetype of `''
                   @ str_path (os_sep w) (path args) @ ''`'')))"
    using upload_file_unguessable by blast
  have types: "\<forall>c \<in> set (started (fst (upload_dir w args))).
        guess_type w (Filename c) = Some (ContentType c)"
    unfolding upload_dir_def by (rule upload_each_content_types)
  then show "\<forall>c \<in> set (started (fst (upload_dir w args))).
        guess_type w (Filename c) = Some (ContentType c)" .
  show "\<forall>f \<in> set (files_of w args).
        guess_type w (str_path (os_sep w) f) = None \<longrightarrow>
          (\<exists>e. snd (upload_dir w args) = Some e)
          \<and> (\<forall>c \<in> set (started (fst (upload_dir w args))).
                Filename c \<noteq> str_path (os_sep w) f)"
  proof (intro ballI impI conjI)
    fix f
    assume f: "f \<in> set (files_of w args)"
      and g: "guess_type w (str_path (os_sep w) f) = None"
    show "\<exists>e. snd (upload_dir w args) = Some e"
      unfolding upload_dir_def using f g by (rule upload_each_unguessable)
    fix c
    assume "c \<in> set (started (fst (upload_dir w args)))"
    with types have "guess_type w (Filename c) = Some (ContentType c)" by blast
    with g show "Filename c \<noteq> str_path (os_sep w) f" by auto
  qed
  show "\<forall>pre f rest.
        files_of w args = pre @ f # rest
        \<and> (\<forall>g \<in> set pre. \<not> file_fails w args g)
        \<and> guess_type w (str_path (os_sep w) f) = None \<longrightarrow>
          snd (upload_dir w args)
            = Some (Exception (''Failed to guess mimetype of `''
                      @ str_path (os_sep w) f @ ''`''))"
  proof (intro allI impI)
    fix pre f rest
    assume h: "files_of w args = pre @ f # rest
        \<and> (\<forall>g \<in> set pre. \<not> file_fails w args g)
        \<and> guess_type w (str_path (os_sep w) f) = None"
    then have "f \<in> set (files_of w args)" by simp
    then obtain key where k: "dir_key w args f = Inr key"
      using files_of_dir_key by blast
    from h have g: "guess_type w (str_path (os_sep w) f) = None" by blast
    have stop: "upload_each w args (get_s3_client args) (f # rest)
         = ([], Some (Exception (''Failed to guess mimetype of `''
                        @ str_path (os_sep w) f @ ''`'')))"
      using k g by (rule upload_each_unguessable_head)
    from h have ok: "\<forall>g \<in> set pre. \<not> file_fails w args g" by blast
    have "snd (upload_each w args (get_s3_client args) (pre @ f # rest))
            = snd (upload_each w args (get_s3_client args) (f # rest))"
      using upload_each_through [OF ok, of "f # rest"] by (simp del: upload_each.simps)
    with h stop show "snd (upload_dir w args)
            = Some (Exception (''Failed to guess mimetype of `''
                      @ str_path (os_sep w) f @ ''`''))"
      by (simp add: upload_dir_def del: upload_each.simps)
  qed
  show "\<forall>c \<in> set (started (fst (upload_file w args))).
        guess_type w (Filename c) = Some (ContentType c)"
  proof (cases "guess_type w (str_path (os_sep w) (path args))")
    case None
    then show ?thesis by (simp add: upload_file_unguessable)
  next
    case (Some m)
    then show ?thesis by (simp add: upload_file_started)
  qed
qed

theorem unguessable_type_is_fatal_witness:
  "guess_type demo_world
     (str_path (os_sep demo_world) (Path ''/'' [''opt'', ''tool'', ''README''])) = None
   \<and> fst (upload_file demo_world
            (demo_file_args\<lparr>path := Path ''/'' [''opt'', ''tool'', ''README'']\<rparr>)) = []
   \<and> Path ''/'' [''opt'', ''tool'', ''site'', ''a'', ''b.txt'']
       \<in> set (files_of demo_png_world demo_dir_args)
   \<and> guess_type demo_png_world
       (str_path (os_sep demo_png_world)
          (Path ''/'' [''opt'', ''tool'', ''site'', ''a'', ''b.txt''])) = None
   \<and> upload_dir demo_png_world demo_dir_args
       = ([], Some (Exception ''Failed to guess mimetype of `/opt/tool/site/a/b.txt`''))"
  using unguessable_type_is_fatal
          [of demo_world "demo_file_args\<lparr>path := Path ''/'' [''opt'', ''tool'', ''README'']\<rparr>"]
        unguessable_type_is_fatal [of demo_png_world demo_dir_args]
  by (simp add: run_defs demo_defs key_defs upload_file_def tqdm_new_def)

lemma store_at_prefix_explicit:
  "store_at_prefix args =
     (case s3_root args of None \<Rightarrow> [] | Some r \<Rightarrow> if r = [] then [] else r @ ''/'')
     @ str_strip CHR ''/'' (s3_path args)"
  by (simp add: store_at_prefix_def truthy_def format_prefix_def Let_def split: option.splits)

text \<open>
  The keys of the calls a run starts are the keys of a first part of the files, in their
  order; of all the files when the run ends without an error.
\<close>

lemma upload_each_keys:
  fixes mk :: "string list \<Rightarrow> fs_path" and keyf :: "string list \<Rightarrow> string"
  assumes mk: "\<And>rel. dir_key w args (mk rel) = Inr (keyf rel)"
  shows "\<exists>k. k \<le> length rels
     \<and> map Key (started (fst (upload_each w args cl (map mk rels)))) = map keyf (take k rels)
     \<and> (snd (upload_each w args cl (map mk rels)) = None \<longrightarrow> k = length rels)"
proof (induction rels)
  case Nil
  have "(0::nat) \<le> length ([] :: string list list)
     \<and> map Key (started (fst (upload_each w args cl (map mk [])))) = map keyf (take 0 [])
     \<and> (snd (upload_each w args cl (map mk [])) = None \<longrightarrow> 0 = length ([] :: string list list))"
    by simp
  then show ?case by (rule exI)
next
  case (Cons rel rels)
  from Cons.IH obtain k where IH: "k \<le> length rels
     \<and> map Key (started (fst (upload_each w args cl (map mk rels)))) = map keyf (take k rels)
     \<and> (snd (upload_each w args cl (map mk rels)) = None \<longrightarrow> k = length rels)" ..
  then have k: "k \<le> length rels"
    and keys: "map Key (started (fst (upload_each w args cl (map mk rels))))
                 = map keyf (take k rels)"
    and all: "snd (upload_each w args cl (map mk rels)) = None \<longrightarrow> k = length rels"
    by simp_all
  have m: "map mk (rel # rels) = mk rel # map mk rels" by simp
  show ?case
  proof (cases "call_for w args (mk rel)")
    case None
    then have "fst (upload_each w args cl (mk rel # map mk rels)) = []
        \<and> (\<exists>e. snd (upload_each w args cl (mk rel # map mk rels)) = Some e)"
      by (rule upload_each_no_call)
    then obtain e where f: "fst (upload_each w args cl (mk rel # map mk rels)) = []"
      and s: "snd (upload_each w args cl (mk rel # map mk rels)) = Some e"
      by blast
    have "0 \<le> length (rel # rels)
       \<and> map Key (started (fst (upload_each w args cl (map mk (rel # rels)))))
           = map keyf (take 0 (rel # rels))
       \<and> (snd (upload_each w args cl (map mk (rel # rels))) = None
            \<longrightarrow> 0 = length (rel # rels))"
      unfolding m by (simp add: f s del: upload_each.simps)
    then show ?thesis by (rule exI)
  next
    case (Some c)
    have "dir_key w args (mk rel) = Inr (Key c)"
      using call_for_fields [OF Some] by blast
    then have kc: "Key c = keyf rel"
      by (simp add: mk)
    show ?thesis
    proof (cases "snd (transfer w cl c) = None")
      case True
      with Some have run: "upload_each w args cl (mk rel # map mk rels)
           = (Started c # Completed c # fst (upload_each w args cl (map mk rels)),
              snd (upload_each w args cl (map mk rels)))"
        by (rule upload_each_call_completes)
      have "Suc k \<le> length (rel # rels)
         \<and> map Key (started (fst (upload_each w args cl (map mk (rel # rels)))))
                 = map keyf (take (Suc k) (rel # rels))
         \<and> (snd (upload_each w args cl (map mk (rel # rels))) = None
            \<longrightarrow> Suc k = length (rel # rels))"
        unfolding m using k all by (simp add: run kc keys del: upload_each.simps)
      then show ?thesis by (rule exI)
    next
      case False
      with Some obtain e where run:
        "upload_each w args cl (mk rel # map mk rels) = ([Started c, Failed c], Some e)"
        using upload_each_call_fails by blast
      have "Suc 0 \<le> length (rel # rels)
         \<and> map Key (started (fst (upload_each w args cl (map mk (rel # rels)))))
                 = map keyf (take (Suc 0) (rel # rels))
         \<and> (snd (upload_each w args cl (map mk (rel # rels))) = None
            \<longrightarrow> Suc 0 = length (rel # rels))"
        unfolding m by (simp add: run kc del: upload_each.simps)
      then show ?thesis by (rule exI)
    qed
  qed
qed


section \<open>C1: the keys of a directory upload\<close>

text \<open>
  Claim C1, as amended. For every directory upload over a source directory \<open>D\<close>, the key
  computed for a regular file found below \<open>D\<close> is root prefix, destination path and
  relative path joined by slashes: the destination path without its leading and trailing
  slashes, the relative path the file's components relative to \<open>D\<close> joined by forward
  slashes whatever the platform's separator is, and the root segment left out when the
  root prefix is unset or empty. The calls of a run carry these keys, one for each file in
  the order of the enumeration, for the files the run gets to; for every file when the
  run ends without an error.
\<close>

theorem directory_upload_keys:
  "(\<forall>rel \<in> set (regular_files w (path args)).
      dir_key w args (Path (anchor (path args)) (parts (path args) @ rel))
        = Inr ((case s3_root args of None \<Rightarrow> [] | Some r \<Rightarrow> if r = [] then [] else r @ ''/'')
               @ str_strip CHR ''/'' (s3_path args) @ ''/'' @ relative_posix rel))
   \<and> (\<exists>k\<le>length (regular_files w (path args)).
        map Key (started (fst (upload_dir w args)))
          = map (\<lambda>rel. (case s3_root args of
                           None \<Rightarrow> []
                         | Some r \<Rightarrow> if r = [] then [] else r @ ''/'')
                       @ str_strip CHR ''/'' (s3_path args) @ ''/'' @ relative_posix rel)
              (take k (regular_files w (path args)))
        \<and> (snd (upload_dir w args) = None \<longrightarrow> k = length (regular_files w (path args))))"
proof
  show "\<forall>rel \<in> set (regular_files w (path args)).
      dir_key w args (Path (anchor (path args)) (parts (path args) @ rel))
        = Inr ((case s3_root args of None \<Rightarrow> [] | Some r \<Rightarrow> if r = [] then [] else r @ ''/'')
               @ str_strip CHR ''/'' (s3_path args) @ ''/'' @ relative_posix rel)"
    by (simp add: dir_key_below store_at_prefix_explicit)
  show "\<exists>k\<le>length (regular_files w (path args)).
        map Key (started (fst (upload_dir w args)))
          = map (\<lambda>rel. (case s3_root args of
                           None \<Rightarrow> []
                         | Some r \<Rightarrow> if r = [] then [] else r @ ''/'')
                       @ str_strip CHR ''/'' (s3_path args) @ ''/'' @ relative_posix rel)
              (take k (regular_files w (path args)))
        \<and> (snd (upload_dir w args) = None \<longrightarrow> k = length (regular_files w (path args)))"
  proof -
    have "\<exists>k. k \<le> length (regular_files w (path args))
       \<and> map Key (started (fst (upload_each w args (get_s3_client args)
               (map (\<lambda>rel. Path (anchor (path args)) (parts (path args) @ rel))
                  (regular_files w (path args))))))
           = map (\<lambda>rel. store_at_prefix args @ ''/'' @ relative_posix rel)
               (take k (regular_files w (path args)))
       \<and> (snd (upload_each w args (get_s3_client args)
               (map (\<lambda>rel. Path (anchor (path args)) (parts (path args) @ rel))
                  (regular_files w (path args)))) = None
            \<longrightarrow> k = length (regular_files w (path args)))"
      by (rule upload_each_keys) (rule dir_key_below)
    then show ?thesis
      by (simp add: upload_dir_def files_of_regular_files store_at_prefix_explicit)
  qed
qed

theorem directory_upload_keys_witness:
  "regular_files demo_world (path demo_dir_args) = [[''a'', ''b.txt''], [''c.png'']]
   \<and> dir_key demo_world demo_dir_args (Path ''/'' [''opt'', ''tool'', ''site'', ''c.png''])
       = Inr ''assets/store/c.png''
   \<and> snd (upload_dir demo_world demo_dir_args) = None
   \<and> map Key (started (fst (upload_dir demo_world demo_dir_args)))
       = [''assets/store/a/b.txt'', ''assets/store/c.png'']"
proof -
  have rf: "regular_files demo_world (path demo_dir_args) = [[''a'', ''b.txt''], [''c.png'']]"
    by (simp add: regular_files_def demo_defs)
  have "\<forall>rel \<in> set (regular_files demo_world (path demo_dir_args)).
      dir_key demo_world demo_dir_args
        (Path (anchor (path demo_dir_args)) (parts (path demo_dir_args) @ rel))
        = Inr ((case s3_root demo_dir_args of
                  None \<Rightarrow> []
                | Some r \<Rightarrow> if r = [] then [] else r @ ''/'')
               @ str_strip CHR ''/'' (s3_path demo_dir_args) @ ''/'' @ relative_posix rel)"
    using directory_upload_keys [of demo_world demo_dir_args] by (rule conjunct1)
  then have "dir_key demo_world demo_dir_args
        (Path (anchor (path demo_dir_args)) (parts (path demo_dir_args) @ [''c.png'']))
        = Inr ((case s3_root demo_dir_args of
                  None \<Rightarrow> []
                | Some r \<Rightarrow> if r = [] then [] else r @ ''/'')
               @ str_strip CHR ''/'' (s3_path demo_dir_args) @ ''/''
               @ relative_posix [''c.png''])"
    unfolding rf by simp
  then have k: "dir_key demo_world demo_dir_args
                  (Path ''/'' [''opt'', ''tool'', ''site'', ''c.png''])
                  = Inr ''assets/store/c.png''"
    by (simp add: demo_dir_args_def demo_dir_def str_strip_def relative_posix_def)
  have run: "upload_dir demo_world demo_dir_args
     = ([Started \<lparr> Filename = ''/opt/tool/site/a/b.txt'', Bucket = ''bucket'',
                   Key = ''assets/store/a/b.txt'', ACL = ''private'',
                   ContentType = ''text/plain'' \<rparr>,
         Completed \<lparr> Filename = ''/opt/tool/site/a/b.txt'', Bucket = ''bucket'',
                     Key = ''assets/store/a/b.txt'', ACL = ''private'',
                     ContentType = ''text/plain'' \<rparr>,
         Started \<lparr> Filename = ''/opt/tool/site/c.png'', Bucket = ''bucket'',
                   Key = ''assets/store/c.png'', ACL = ''private'',
                   ContentType = ''image/png'' \<rparr>,
         Completed \<lparr> Filename = ''/opt/tool/site/c.png'', Bucket = ''bucket'',
                     Key = ''assets/store/c.png'', ACL = ''private'',
                     ContentType = ''image/png'' \<rparr>], None)"
    by (simp add: run_defs demo_defs key_defs)
  from rf k show ?thesis by (simp add: run)
qed

text \<open>
  The claim as it was stated leaves the root segment out only when the root prefix is
  unset. With \<^verbatim>\<open>--s3_root\<close> set to the empty string and the destination path
  \<^verbatim>\<open>store\<close>, the stated key of \<^verbatim>\<open>c.png\<close> is \<^verbatim>\<open>/store/c.png\<close>; the program computes
  \<^verbatim>\<open>store/c.png\<close>.
\<close>

theorem directory_upload_keys_counterexample:
  "dir_key demo_world (demo_dir_args\<lparr>s3_root := Some ''''\<rparr>)
     (Path ''/'' [''opt'', ''tool'', ''site'', ''c.png'']) = Inr ''store/c.png''
   \<and> stated_key (Some '''') (s3_path demo_dir_args) (relative_posix [''c.png''])
       = ''/store/c.png''
   \<and> dir_key demo_world (demo_dir_args\<lparr>s3_root := Some ''''\<rparr>)
       (Path ''/'' [''opt'', ''tool'', ''site'', ''c.png''])
     \<noteq> Inr (stated_key (Some '''') (s3_path demo_dir_args) (relative_posix [''c.png'']))"
  by (simp add: demo_defs key_defs stated_key_def relative_posix_def)

section \<open>Auxiliary facts about argument parsing\<close>

lemma path_object_cases:
  "(\<exists>p. path_object w v = Inr p)
   \<or> (\<exists>msg. path_object w v = Inl (ArgumentTypeError msg))
   \<or> (\<exists>errno. path_object w v = Inl (OSError errno))"
  by (simp add: path_object_def path_exists_def Let_def split: option.splits)




lemma store_arg_path_ok:
  "path_object w v = Inr p \<Longrightarrow>
   store_arg w (''--path'', v) ns = Inr (ns\<lparr>ns_path := Some p\<rparr>)"
  by simp

lemma store_arg_path_bad:
  "path_object w v = Inl (ArgumentTypeError msg) \<Longrightarrow>
   store_arg w (''--path'', v) ns = Inl (UsageError (''argument --path: '' @ msg))"
  by simp

lemma store_arg_path_oserror:
  "path_object w v = Inl (OSError errno) \<Longrightarrow>
   store_arg w (''--path'', v) ns = Inl (OSError errno)"
  by simp

lemma store_arg_visibility_ok:
  "v \<in> set ALLOWED_VISIBILITIES \<Longrightarrow>
   store_arg w (''--s3_visibility'', v) ns = Inr (ns\<lparr>ns_s3_visibility := v\<rparr>)"
  by simp

lemma store_arg_visibility_bad:
  "v \<notin> set ALLOWED_VISIBILITIES \<Longrightarrow>
   store_arg w (''--s3_visibility'', v) ns
     = Inl (UsageError (''argument --s3_visibility: invalid choice: '' @ v
              @ '' (choose from '' @ str_join '', '' ALLOWED_VISIBILITIES @ '')''))"
  by simp

lemma store_arg_other:
  "opt \<noteq> ''--path'' \<Longrightarrow> opt \<noteq> ''--s3_visibility'' \<Longrightarrow>
   \<exists>ns'. store_arg w (opt, v) ns = Inr ns' \<and> ns_s3_visibility ns' = ns_s3_visibility ns"
  by simp

text \<open>Whether an occurrence is refused does not depend on what was stored before it.\<close>

lemma store_arg_error_indep:
  assumes "store_arg w a ns = Inl e"
  shows "store_arg w a ns' = Inl e"
proof -
  obtain opt v where a: "a = (opt, v)" by (cases a)
  show ?thesis
  proof (cases "opt = ''--path''")
    case True
    from path_object_cases [of w v] consider
        (ok) p where "path_object w v = Inr p"
      | (bad) msg where "path_object w v = Inl (ArgumentTypeError msg)"
      | (os) errno where "path_object w v = Inl (OSError errno)"
      by blast
    then show ?thesis
    proof cases
      case ok
      then have "store_arg w (''--path'', v) ns = Inr (ns\<lparr>ns_path := Some p\<rparr>)"
        by (rule store_arg_path_ok)
      with assms show ?thesis by (simp add: a True del: store_arg.simps)
    next
      case bad
      note m = bad
      have "store_arg w (''--path'', v) ns = Inl (UsageError (''argument --path: '' @ msg))"
        using m by (rule store_arg_path_bad)
      moreover
      have "store_arg w (''--path'', v) ns' = Inl (UsageError (''argument --path: '' @ msg))"
        using m by (rule store_arg_path_bad)
      ultimately show ?thesis using assms by (simp add: a True del: store_arg.simps)
    next
      case os
      have "store_arg w (''--path'', v) ns = Inl (OSError errno)"
        using os by (rule store_arg_path_oserror)
      moreover
      have "store_arg w (''--path'', v) ns' = Inl (OSError errno)"
        using os by (rule store_arg_path_oserror)
      ultimately show ?thesis using assms by (simp add: a True del: store_arg.simps)
    qed
  next
    case False
    show ?thesis
    proof (cases "opt = ''--s3_visibility''")
      case True
      show ?thesis
      proof (cases "v \<in> set ALLOWED_VISIBILITIES")
        case ok: True
        then have "store_arg w (''--s3_visibility'', v) ns = Inr (ns\<lparr>ns_s3_visibility := v\<rparr>)"
          by (rule store_arg_visibility_ok)
        with assms show ?thesis by (simp add: a True del: store_arg.simps)
      next
        case bad: False
        from bad have "store_arg w (''--s3_visibility'', v) ns
           = Inl (UsageError (''argument --s3_visibility: invalid choice: '' @ v
              @ '' (choose from '' @ str_join '', '' ALLOWED_VISIBILITIES @ '')''))"
          by (rule store_arg_visibility_bad)
        moreover from bad have "store_arg w (''--s3_visibility'', v) ns'
           = Inl (UsageError (''argument --s3_visibility: invalid choice: '' @ v
              @ '' (choose from '' @ str_join '', '' ALLOWED_VISIBILITIES @ '')''))"
          by (rule store_arg_visibility_bad)
        ultimately show ?thesis using assms by (simp add: a True del: store_arg.simps)
      qed
    next
      case nv: False
      from False nv obtain ns1 where "store_arg w (opt, v) ns = Inr ns1"
        using store_arg_other by blast
      with assms show ?thesis by (simp add: a del: store_arg.simps)
    qed
  qed
qed

lemma store_args_fails:
  "a \<in> set argv \<Longrightarrow> store_arg w a ns0 = Inl e \<Longrightarrow> \<exists>e'. store_args w argv ns = Inl e'"
proof (induction argv arbitrary: ns)
  case Nil
  then show ?case by simp
next
  case (Cons b argv)
  show ?case
  proof (cases "store_arg w b ns")
    case (Inl e')
    then show ?thesis by (simp del: store_arg.simps)
  next
    case (Inr ns')
    have "a \<noteq> b"
    proof
      assume "a = b"
      from Cons.prems(2) have "store_arg w a ns = Inl e" by (rule store_arg_error_indep)
      with \<open>a = b\<close> have "store_arg w b ns = Inl e" by (simp del: store_arg.simps)
      with Inr show False by (simp del: store_arg.simps)
    qed
    with Cons.prems(1) have "a \<in> set argv" by simp
    then have "\<exists>e'. store_args w argv ns' = Inl e'"
      using Cons.prems(2) by (rule Cons.IH)
    with Inr show ?thesis by (simp del: store_arg.simps)
  qed
qed

lemma parse_args_fails:
  "a \<in> set argv \<Longrightarrow> store_arg w a ns0 = Inl e \<Longrightarrow> \<exists>e'. parse_args w argv = Inl e'"
proof -
  assume "a \<in> set argv" and "store_arg w a ns0 = Inl e"
  then obtain e' where "store_args w argv defaults = Inl e'"
    using store_args_fails by blast
  then show ?thesis by (simp add: parse_args_def)
qed

lemma main_parse_error: "parse_args w argv = Inl e \<Longrightarrow> main w argv = ([], Inl e)"
  by (simp add: main_def)

lemma store_arg_keeps_visibility:
  assumes "store_arg w (opt, v) ns = Inr ns'" and "opt \<noteq> ''--s3_visibility''"
  shows "ns_s3_visibility ns' = ns_s3_visibility ns"
proof (cases "opt = ''--path''")
  case True
  from path_object_cases [of w v] consider
      (ok) p where "path_object w v = Inr p"
    | (bad) msg where "path_object w v = Inl (ArgumentTypeError msg)"
    | (os) errno where "path_object w v = Inl (OSError errno)"
    by blast
  then show ?thesis
  proof cases
    case ok
    then have "store_arg w (''--path'', v) ns = Inr (ns\<lparr>ns_path := Some p\<rparr>)"
      by (rule store_arg_path_ok)
    with assms(1) have "ns' = ns\<lparr>ns_path := Some p\<rparr>"
      by (simp add: True del: store_arg.simps)
    then show ?thesis by simp
  next
    case bad
    then have "store_arg w (''--path'', v) ns = Inl (UsageError (''argument --path: '' @ msg))"
      by (rule store_arg_path_bad)
    with assms(1) show ?thesis by (simp add: True del: store_arg.simps)
  next
    case os
    then have "store_arg w (''--path'', v) ns = Inl (OSError errno)"
      by (rule store_arg_path_oserror)
    with assms(1) show ?thesis by (simp add: True del: store_arg.simps)
  qed
next
  case False
  with assms(2) obtain ns1 where "store_arg w (opt, v) ns = Inr ns1"
    and "ns_s3_visibility ns1 = ns_s3_visibility ns"
    using store_arg_other by blast
  with assms(1) show ?thesis by (simp del: store_arg.simps)
qed

lemma store_args_keeps_visibility:
  "store_args w argv ns = Inr ns' \<Longrightarrow> ''--s3_visibility'' \<notin> fst ` set argv \<Longrightarrow>
   ns_s3_visibility ns' = ns_s3_visibility ns"
proof (induction argv arbitrary: ns)
  case Nil
  then show ?case by simp
next
  case (Cons a argv)
  obtain opt v where a: "a = (opt, v)" by (cases a)
  from Cons.prems(2) a have o: "opt \<noteq> ''--s3_visibility''" by auto
  from Cons.prems(1) obtain ns1 where s1: "store_arg w (opt, v) ns = Inr ns1"
    and rest: "store_args w argv ns1 = Inr ns'"
    unfolding a by (cases "store_arg w (opt, v) ns") (simp_all del: store_arg.simps)
  from Cons.prems(2) have "''--s3_visibility'' \<notin> fst ` set argv" by simp
  with rest have "ns_s3_visibility ns' = ns_s3_visibility ns1" by (rule Cons.IH)
  moreover from s1 o have "ns_s3_visibility ns1 = ns_s3_visibility ns"
    by (rule store_arg_keeps_visibility)
  ultimately show ?case by simp
qed

lemma parse_args_visibility:
  "parse_args w argv = Inr args \<Longrightarrow>
   \<exists>ns. store_args w argv defaults = Inr ns \<and> s3_visibility args = ns_s3_visibility ns"
  by (auto simp: parse_args_def split: sum.splits if_splits)

lemma parse_args_main_fail:
  "a \<in> set argv \<Longrightarrow> store_arg w a ns0 = Inl e \<Longrightarrow>
   \<exists>e'. parse_args w argv = Inl e' \<and> main w argv = ([], Inl e')"
proof -
  assume "a \<in> set argv" and "store_arg w a ns0 = Inl e"
  then obtain e' where p: "parse_args w argv = Inl e'"
    using parse_args_fails by blast
  then have "main w argv = ([], Inl e')" by (rule main_parse_error)
  with p show ?thesis by blast
qed



lemmas parse_defs = parse_args_def defaults_def missing_required_def path_object_def
  path_exists_def ignore_error_def IGNORED_ERRNOS_def
  joinpath_def parse_path_def parse_anchor_def is_separator_def ALLOWED_VISIBILITIES_def
  demo_argv_def

section \<open>C6: the visibility is one of two values, private by default\<close>

text \<open>
  Claim C6. When \<^verbatim>\<open>--s3_visibility\<close> is given a value other than \<^verbatim>\<open>private\<close> and
  \<^verbatim>\<open>public-read\<close>, argument parsing fails and \<^verbatim>\<open>main\<close> ends with that error before
  anything is sent; the occurrence itself is refused with a usage error, whatever follows
  it on the command line. When the flag is not given and parsing succeeds, the
  visibility is \<^verbatim>\<open>private\<close>.
\<close>

theorem visibility_choice:
  "(\<forall>v. (''--s3_visibility'', v) \<in> set argv \<and> v \<notin> set ALLOWED_VISIBILITIES \<longrightarrow>
        (\<exists>e. parse_args w argv = Inl e \<and> main w argv = ([], Inl e)))
   \<and> (\<forall>v rest ns. v \<notin> set ALLOWED_VISIBILITIES \<longrightarrow>
        store_args w ((''--s3_visibility'', v) # rest) ns
          = Inl (UsageError (''argument --s3_visibility: invalid choice: '' @ v
                   @ '' (choose from '' @ str_join '', '' ALLOWED_VISIBILITIES @ '')'')))
   \<and> (\<forall>args. ''--s3_visibility'' \<notin> fst ` set argv \<and> parse_args w argv = Inr args \<longrightarrow>
        s3_visibility args = ''private'')
   \<and> set ALLOWED_VISIBILITIES = {''private'', ''public-read''}"
proof (intro conjI allI impI)
  fix v
  assume h: "(''--s3_visibility'', v) \<in> set argv \<and> v \<notin> set ALLOWED_VISIBILITIES"
  then have "store_arg w (''--s3_visibility'', v) defaults
     = Inl (UsageError (''argument --s3_visibility: invalid choice: '' @ v
              @ '' (choose from '' @ str_join '', '' ALLOWED_VISIBILITIES @ '')''))"
    using store_arg_visibility_bad by blast
  with h show "\<exists>e. parse_args w argv = Inl e \<and> main w argv = ([], Inl e)"
    using parse_args_main_fail by blast
next
  fix v rest ns
  assume "v \<notin> set ALLOWED_VISIBILITIES"
  then have "store_arg w (''--s3_visibility'', v) ns
     = Inl (UsageError (''argument --s3_visibility: invalid choice: '' @ v
              @ '' (choose from '' @ str_join '', '' ALLOWED_VISIBILITIES @ '')''))"
    by (rule store_arg_visibility_bad)
  then show "store_args w ((''--s3_visibility'', v) # rest) ns
          = Inl (UsageError (''argument --s3_visibility: invalid choice: '' @ v
                   @ '' (choose from '' @ str_join '', '' ALLOWED_VISIBILITIES @ '')''))"
    by (simp del: store_arg.simps)
next
  fix args
  assume h: "''--s3_visibility'' \<notin> fst ` set argv \<and> parse_args w argv = Inr args"
  then obtain ns where ns: "store_args w argv defaults = Inr ns"
    and v: "s3_visibility args = ns_s3_visibility ns"
    using parse_args_visibility by blast
  from ns h have "ns_s3_visibility ns = ns_s3_visibility defaults"
    using store_args_keeps_visibility by blast
  with v show "s3_visibility args = ''private''"
    by (simp add: defaults_def ALLOWED_VISIBILITIES_def)
next
  show "set ALLOWED_VISIBILITIES = {''private'', ''public-read''}"
    by (simp add: ALLOWED_VISIBILITIES_def)
qed

theorem visibility_choice_witness:
  "(''--s3_visibility'', ''public'') \<in> set (demo_argv @ [(''--s3_visibility'', ''public'')])
   \<and> ''public'' \<notin> set ALLOWED_VISIBILITIES
   \<and> main demo_world (demo_argv @ [(''--s3_visibility'', ''public'')])
       = ([], Inl (UsageError
            ''argument --s3_visibility: invalid choice: public (choose from private, public-read)''))
   \<and> ''--s3_visibility'' \<notin> fst ` set demo_argv
   \<and> parse_args demo_world demo_argv = Inr (demo_dir_args\<lparr>s3_root := None\<rparr>)
   \<and> s3_visibility (demo_dir_args\<lparr>s3_root := None\<rparr>) = ''private''"
proof -
  define bad_argv where "bad_argv = demo_argv @ [(''--s3_visibility'', ''public'')]"
  define good_args where "good_args = demo_dir_args\<lparr>s3_root := None\<rparr>"
  define vis where "vis = ''--s3_visibility''"
  define pub where "pub = ''public''"
  have m: "(vis, pub) \<in> set bad_argv"
    by (simp add: bad_argv_def vis_def pub_def)
  have b: "pub \<notin> set ALLOWED_VISIBILITIES"
    by (simp add: ALLOWED_VISIBILITIES_def pub_def)
  have p1: "parse_args demo_world bad_argv
     = Inl (UsageError
         ''argument --s3_visibility: invalid choice: public (choose from private, public-read)'')"
    unfolding bad_argv_def by code_simp
  have t1: "\<forall>v. (vis, v) \<in> set bad_argv \<and> v \<notin> set ALLOWED_VISIBILITIES \<longrightarrow>
        (\<exists>e. parse_args demo_world bad_argv = Inl e \<and> main demo_world bad_argv = ([], Inl e))"
    unfolding vis_def using visibility_choice [of bad_argv demo_world] by (rule conjunct1)
  then have "(vis, pub) \<in> set bad_argv \<and> pub \<notin> set ALLOWED_VISIBILITIES \<longrightarrow>
        (\<exists>e. parse_args demo_world bad_argv = Inl e \<and> main demo_world bad_argv = ([], Inl e))"
    by (rule spec)
  moreover from m b have "(vis, pub) \<in> set bad_argv \<and> pub \<notin> set ALLOWED_VISIBILITIES"
    by (rule conjI)
  ultimately have "\<exists>e. parse_args demo_world bad_argv = Inl e
                      \<and> main demo_world bad_argv = ([], Inl e)"
    by (rule mp)
  then obtain e where e1: "parse_args demo_world bad_argv = Inl e"
    and e2: "main demo_world bad_argv = ([], Inl e)"
    by (elim exE conjE)
  from e1 have "e = UsageError
         ''argument --s3_visibility: invalid choice: public (choose from private, public-read)''"
    unfolding p1 by simp
  with e2 have m1: "main demo_world bad_argv
       = ([], Inl (UsageError
            ''argument --s3_visibility: invalid choice: public (choose from private, public-read)''))"
    by simp
  have a: "vis \<notin> fst ` set demo_argv"
    by (simp add: demo_argv_def vis_def)
  have p2: "parse_args demo_world demo_argv = Inr good_args"
    unfolding good_args_def by code_simp
  have "\<forall>args. vis \<notin> fst ` set demo_argv \<and> parse_args demo_world demo_argv = Inr args \<longrightarrow>
        s3_visibility args = ''private''"
    unfolding vis_def
    using visibility_choice [of demo_argv demo_world] by (rule conjunct1 [OF conjunct2 [OF conjunct2]])
  then have "vis \<notin> fst ` set demo_argv \<and> parse_args demo_world demo_argv = Inr good_args
        \<longrightarrow> s3_visibility good_args = ''private''"
    by (rule spec)
  moreover from a p2 have "vis \<notin> fst ` set demo_argv
        \<and> parse_args demo_world demo_argv = Inr good_args"
    by (rule conjI)
  ultimately have v: "s3_visibility good_args = ''private''"
    by (rule mp)
  from m b m1 a p2 v show ?thesis
    unfolding bad_argv_def good_args_def vis_def pub_def by (intro conjI)
qed

section \<open>C8: the source path must exist\<close>




text \<open>
  What the callback leaves behind after the chunks \<open>xs\<close>: the running total is the sum of
  the chunks, and the bar's counter has grown by every running total on the way.
\<close>

lemma bytes_count_fold:
  "fold bytes_count xs (t, bar)
     = (t + sum_list xs,
        bar\<lparr>n := n bar + (\<Sum>k<length xs. t + sum_list (take (Suc k) xs))\<rparr>)"
proof (induction xs arbitrary: t bar)
  case Nil
  show ?case by simp
next
  case (Cons x xs)
  have step: "bytes_count x (t, bar) = (t + x, bar\<lparr>n := n bar + (t + x)\<rparr>)"
    by (simp add: bytes_count_def update_def Let_def)
  have sum: "(\<Sum>k<length (x # xs). t + sum_list (take (Suc k) (x # xs)))
               = (t + x) + (\<Sum>k<length xs. (t + x) + sum_list (take (Suc k) xs))"
    by (simp only: length_Cons sum.lessThan_Suc_shift) (simp add: add.assoc)
  have "fold bytes_count (x # xs) (t, bar)
          = fold bytes_count xs (t + x, bar\<lparr>n := n bar + (t + x)\<rparr>)"
    by (simp add: step)
  also have "\<dots> = (t + x + sum_list xs,
                    bar\<lparr>n := n bar + (t + x)
                          + (\<Sum>k<length xs. (t + x) + sum_list (take (Suc k) xs))\<rparr>)"
    by (simp add: Cons.IH)
  finally show ?case
    unfolding sum by (simp add: add.assoc)
qed

section \<open>C4: the progress bar of a single-file upload\<close>

text \<open>
  Claim C4 says that after the \<open>k\<close>-th callback the bar shows the sum of the first \<open>k\<close>
  chunk sizes. The callback passes the running total to \<^verbatim>\<open>update\<close>, which adds its
  argument to the counter, so the bar counts every chunk once for each callback it has
  seen. For a file of three bytes reported as a chunk of one byte and a chunk of two,
  the bar shows 1 after the first callback and 4 after the second, where the bytes
  transferred are 3, the bar's own total.
\<close>

theorem progress_bar_double_counts:
  "n (snd (fold bytes_count (take 1 [1, 2]) (0, tqdm_new 3))) = 1
   \<and> n (snd (fold bytes_count (take 2 [1, 2]) (0, tqdm_new 3))) = 4
   \<and> sum_list (take 2 [1, 2 :: int]) = 3
   \<and> transfer demo_world (get_s3_client demo_file_args)
        \<lparr> Filename = ''/opt/tool/report.pdf'', Bucket = ''bucket'',
          Key = ''media/docs/report.pdf'', ACL = ''private'',
          ContentType = ''application/pdf'' \<rparr> = ([1, 2], None)
   \<and> st_size demo_world (path demo_file_args) = 3
   \<and> fst (snd (upload_file demo_world demo_file_args)) = \<lparr> total = 3, n = 4 \<rparr>"
  by code_simp

end
